theory Spec2Isabelle
  imports Main "HOL-Library.Word"
begin

section \<open>VAST: the Verilog AST of xls/codegen and its emission\<close>

text \<open>
  A shallow embedding of the emission code of \<^verbatim>\<open>xls/codegen/vast.cc\<close>.  Every
  \<^verbatim>\<open>Emit\<close> method returns a string or terminates the process through a failed
  \<^verbatim>\<open>XLS_CHECK\<close>; the embedding returns \<open>fatal + string\<close>, with \<open>Inl CheckFailure\<close>
  for the abort.  Functions returning \<^verbatim>\<open>absl::StatusOr<T>\<close> return
  \<open>fatal + (Status + T)\<close>: the outer sum is the abort, the inner one the typed failure.
\<close>

subsection \<open>Outcomes\<close>

datatype fatal = CheckFailure

datatype Status = FailedPreconditionError string | InvalidArgumentError string

subsection \<open>Text helpers\<close>

text \<open>\<^verbatim>\<open>absl::StrCat\<close> and \<^verbatim>\<open>%d\<close> on an unsigned number: its decimal numeral.\<close>

fun StrCat_nat :: "nat \<Rightarrow> string" where
  "StrCat_nat n =
     (if n < 10 then [''0123456789'' ! n]
      else StrCat_nat (n div 10) @ [''0123456789'' ! (n mod 10)])"

declare StrCat_nat.simps [simp del]

text \<open>\<^verbatim>\<open>%d\<close> on a signed 64-bit number.\<close>

definition StrCat_int :: "int \<Rightarrow> string" where
  "StrCat_int i = (if i < 0 then ''-'' @ StrCat_nat (nat (- i)) else StrCat_nat (nat i))"

text \<open>\<^verbatim>\<open>absl::StrCat\<close> on a \<^verbatim>\<open>uint64\<close>.\<close>

definition StrCat_uint64 :: "64 word \<Rightarrow> string" where
  "StrCat_uint64 w = StrCat_nat (unat w)"

text \<open>\<^verbatim>\<open>absl::StrJoin\<close>: the pieces with the separator between neighbours.\<close>

fun StrJoin :: "string list \<Rightarrow> string \<Rightarrow> string" where
  "StrJoin [] sep = []"
| "StrJoin [x] sep = x"
| "StrJoin (x # y # ys) sep = x @ sep @ StrJoin (y # ys) sep"

text \<open>\<^verbatim>\<open>ParenWrap\<close>: the given string wrapped in parentheses.\<close>

definition ParenWrap :: "string \<Rightarrow> string" where
  "ParenWrap s = ''('' @ s @ '')''"

subsection \<open>Bit vectors\<close>

text \<open>
  Modelled from the spec: the class \<^verbatim>\<open>Bits\<close> is defined in \<^verbatim>\<open>xls/ir/bits.h\<close>, outside
  \<^verbatim>\<open>vast.cc\<close>.  The spec calls a literal an arbitrary-precision bit pattern; here it is
  the list of its bits, least significant first, so that \<^verbatim>\<open>bit_count()\<close> is the length
  of the list.
\<close>

type_synonym Bits = "bool list"

text \<open>Modelled from the spec: \<^verbatim>\<open>Bits::bit_count\<close>, the width of the pattern.\<close>

definition bit_count :: "Bits \<Rightarrow> nat" where
  "bit_count b = length b"

text \<open>Modelled from the spec: the unsigned value of a bit pattern.\<close>

fun Bits_value :: "Bits \<Rightarrow> nat" where
  "Bits_value [] = 0"
| "Bits_value (b # bs) = (if b then 1 else 0) + 2 * Bits_value bs"

text \<open>Modelled from the spec: \<^verbatim>\<open>UBits(value, bit_count)\<close>, the pattern of the given
  width holding the given unsigned value (\<^verbatim>\<open>vast.cc\<close> calls it only as
  \<^verbatim>\<open>UBits(1, 32)\<close>).\<close>

fun UBits :: "nat \<Rightarrow> nat \<Rightarrow> Bits" where
  "UBits v 0 = []"
| "UBits v (Suc n) = odd v # UBits (v div 2) n"

text \<open>Modelled from the spec: \<^verbatim>\<open>Bits::ToUint64\<close> returns a \<^verbatim>\<open>StatusOr<uint64>\<close>
  (\<^verbatim>\<open>vast.cc\<close> calls \<^verbatim>\<open>.value()\<close> on it and passes it to \<^verbatim>\<open>XLS_ASSIGN_OR_RETURN\<close>);
  the unsigned value is returned when it fits in 64 bits.\<close>

definition ToUint64 :: "Bits \<Rightarrow> Status + 64 word" where
  "ToUint64 b =
     (if Bits_value b < 2 ^ 64 then Inr (word_of_nat (Bits_value b))
      else Inl (InvalidArgumentError ''Bits value cannot be represented as an unsigned 64-bit value''))"

text \<open>Modelled from the spec: the value of the pattern read as two's complement.\<close>

definition Bits_signed_value :: "Bits \<Rightarrow> int" where
  "Bits_signed_value b =
     (if b \<noteq> [] \<and> last b then int (Bits_value b) - 2 ^ length b else int (Bits_value b))"

text \<open>Modelled from the spec: \<^verbatim>\<open>Bits::FitsInInt64\<close>, whether the two's complement value
  is a signed 64-bit number.\<close>

definition FitsInInt64 :: "Bits \<Rightarrow> bool" where
  "FitsInInt64 b \<longleftrightarrow> - (2 ^ 63) \<le> Bits_signed_value b \<and> Bits_signed_value b < 2 ^ 63"

text \<open>Modelled from the spec: \<^verbatim>\<open>Bits::ToInt64\<close>, the two's complement value when it
  fits.\<close>

definition ToInt64 :: "Bits \<Rightarrow> Status + int" where
  "ToInt64 b =
     (if FitsInInt64 b then Inr (Bits_signed_value b)
      else Inl (InvalidArgumentError ''Bits value cannot be represented as a signed 64-bit value''))"

text \<open>Modelled from the spec: \<^verbatim>\<open>Bits::ToString(FormatPreference::kDecimal)\<close>, the plain
  decimal numeral of the unsigned value.\<close>

definition Bits_ToString_decimal :: "Bits \<Rightarrow> string" where
  "Bits_ToString_decimal b = StrCat_nat (Bits_value b)"

datatype FormatPreference = kDefault | kBinary | kDecimal | kHex | kPlainBinary | kPlainHex

text \<open>Modelled from the spec: the binary digits of a pattern before they are grouped,
  zero-padded to the full width: one digit per bit, most significant first.\<close>

definition binary_digits :: "Bits \<Rightarrow> string" where
  "binary_digits b = rev (map (\<lambda>x. if x then CHR ''1'' else CHR ''0'') b)"

text \<open>Modelled from the spec: the hex digits of a pattern before they are grouped,
  zero-padded to the full width: one digit per group of four bits (the topmost group may
  be shorter), most significant first.\<close>

fun hex_digits :: "Bits \<Rightarrow> string" where
  "hex_digits (a # b # c # d # rest) =
     hex_digits rest @ [''0123456789abcdef'' ! Bits_value [a, b, c, d]]"
| "hex_digits [] = []"
| "hex_digits [a] = [''0123456789abcdef'' ! Bits_value [a]]"
| "hex_digits [a, b] = [''0123456789abcdef'' ! Bits_value [a, b]]"
| "hex_digits [a, b, c] = [''0123456789abcdef'' ! Bits_value [a, b, c]]"

text \<open>Modelled from the spec: digits without their leading zeros; one digit at least
  stays.\<close>

definition elide_leading_zeros :: "string \<Rightarrow> string" where
  "elide_leading_zeros s =
     (case dropWhile (\<lambda>c. c = CHR ''0'') s of [] \<Rightarrow> ''0'' | t \<Rightarrow> t)"

text \<open>Modelled from the spec: the separator of digit groups.  The binary and hex
  renderings of \<^verbatim>\<open>Bits\<close> put a \<open>_\<close> between groups of four digits, counted from the
  least significant digit (the test of \<^verbatim>\<open>xls/dslx/interp_value\<close> expects
  \<open>0b1111_1111\<close> for the eight-bit value 255).  Here on digits given least significant
  first: a \<open>_\<close> follows every full group that has a digit after it.\<close>

fun separate_groups_rev :: "string \<Rightarrow> string" where
  "separate_groups_rev (a # b # c # d # e # rest) =
     a # b # c # d # CHR ''_'' # separate_groups_rev (e # rest)"
| "separate_groups_rev ds = ds"

text \<open>Modelled from the spec: the same on digits given most significant first.\<close>

definition separate_groups :: "string \<Rightarrow> string" where
  "separate_groups s = rev (separate_groups_rev (rev s))"

text \<open>Modelled from the spec: \<^verbatim>\<open>Bits::ToRawDigits(format, emit_leading_zeros)\<close>, the
  bare digits of the value in the radix of the format.  Binary and hex digits are
  zero-padded to the full width when \<^verbatim>\<open>emit_leading_zeros\<close> is set and are separated
  into groups of four by \<open>_\<close>; a pattern of width 0 renders as the digit 0.
  \<^verbatim>\<open>vast.cc\<close> calls it with the binary and the hex format only; the plain formats are
  taken to render without separators.\<close>

definition ToRawDigits :: "FormatPreference \<Rightarrow> bool \<Rightarrow> Bits \<Rightarrow> string" where
  "ToRawDigits format emit_leading_zeros b =
     (if format = kDecimal then StrCat_nat (Bits_value b)
      else if bit_count b = 0 then ''0''
      else
        (let digits = (if format = kBinary \<or> format = kPlainBinary then binary_digits b
                       else hex_digits b);
             shown = (if emit_leading_zeros then digits else elide_leading_zeros digits)
         in if format = kBinary \<or> format = kHex then separate_groups shown else shown))"

subsection \<open>Expressions, data types and declarations\<close>

datatype DataKind = kReg | kWire | kLogic

text \<open>
  The expression nodes whose \<^verbatim>\<open>Emit\<close> is defined in \<^verbatim>\<open>vast.cc\<close>, with the fields these
  methods read.  An operator node carries its precedence (\<^verbatim>\<open>WidthToLimit\<close> passes it to the
  constructor of \<^verbatim>\<open>BinaryInfix\<close>).  A pointer that may be null is an \<open>option\<close>.
\<close>

datatype Expression =
    Literal Bits FormatPreference bool
  | LogicRef Def
  | Unary string Expression int
  | BinaryInfix Expression string Expression int
  | Ternary Expression Expression Expression
  | Concat "Expression option" "Expression list"
  | ArrayAssignmentPattern "Expression list"
  | Slice Expression Expression Expression
  | PartSelect Expression Expression Expression
  | Index Expression Expression
  | QuotedString string
  | XSentinel int
  | MacroRef string
  | SystemFunctionCall string "Expression list option"
and DataType =
    DataType (width: "Expression option") (is_signed: bool) (packed_dims: "Expression list")
and Def =
    Def (GetName: string) (data_kind: DataKind) (data_type: DataType)

text \<open>Modelled from the spec: \<^verbatim>\<open>Expression::kMaxPrecedence\<close>; the class declarations
  of \<^verbatim>\<open>vast.h\<close> lie outside \<^verbatim>\<open>vast.cc\<close>.  The properties below hold for any value of
  it.\<close>

definition kMaxPrecedence :: int where
  "kMaxPrecedence = 13"

text \<open>Modelled from the spec: \<^verbatim>\<open>Expression::precedence\<close>.  Precedence runs from unary
  and primary expressions (highest) down to the ternary (lowest); an operator has the
  precedence it was built with and every other node binds as tightly as possible.\<close>

fun precedence :: "Expression \<Rightarrow> int" where
  "precedence (Unary op arg p) = p"
| "precedence (BinaryInfix lhs op rhs p) = p"
| "precedence (Ternary test consequent alternate) = 0"
| "precedence e = kMaxPrecedence"

text \<open>Modelled from the spec: \<^verbatim>\<open>Expression::IsLiteral\<close>, true of literal nodes only.\<close>

fun IsLiteral :: "Expression \<Rightarrow> bool" where
  "IsLiteral (Literal b f e) = True"
| "IsLiteral e = False"

text \<open>Modelled from the spec: \<^verbatim>\<open>Expression::IsUnary\<close>, true of unary nodes only.\<close>

fun IsUnary :: "Expression \<Rightarrow> bool" where
  "IsUnary (Unary op arg p) = True"
| "IsUnary e = False"

text \<open>Modelled from the spec: \<^verbatim>\<open>DataType::IsScalar\<close>; a scalar type is a DataType with
  no declared width.\<close>

definition DataType_IsScalar :: "DataType \<Rightarrow> bool" where
  "DataType_IsScalar t \<longleftrightarrow> width t = None"

text \<open>Modelled from the spec: \<^verbatim>\<open>IsScalar\<close> on the subject of an index or a slice; a
  reference is scalar when the type of its declaration is, no other node is.\<close>

fun IsScalar :: "Expression \<Rightarrow> bool" where
  "IsScalar (LogicRef d) = DataType_IsScalar (data_type d)"
| "IsScalar e = False"

text \<open>\<^verbatim>\<open>Literal::IsLiteralWithValue\<close>; on any other node the answer is no.  After the
  test of \<^verbatim>\<open>FitsInInt64\<close> the conversion cannot fail, so its failure branch is never
  taken.\<close>

fun IsLiteralWithValue :: "Expression \<Rightarrow> int \<Rightarrow> bool" where
  "IsLiteralWithValue (Literal b f e) target =
     (if \<not> FitsInInt64 b then False
      else (case ToInt64 b of Inr v \<Rightarrow> v = target | Inl s \<Rightarrow> False))"
| "IsLiteralWithValue e target = False"

subsection \<open>Emission of expressions\<close>

text \<open>The results of a list of calls, in order; one abort aborts all.\<close>

fun sequence :: "(fatal + 'a) list \<Rightarrow> fatal + 'a list" where
  "sequence [] = Inr []"
| "sequence (x # xs) =
     (case x of Inl f \<Rightarrow> Inl f
      | Inr s \<Rightarrow> (case sequence xs of Inl f \<Rightarrow> Inl f | Inr ss \<Rightarrow> Inr (s # ss)))"

text \<open>\<^verbatim>\<open>Literal::Emit\<close>.\<close>

definition Literal_Emit :: "Bits \<Rightarrow> FormatPreference \<Rightarrow> bool \<Rightarrow> fatal + string" where
  "Literal_Emit bits format emit_bit_count =
     (if format = kDefault then
        (if bit_count bits \<le> 32 then Inr (Bits_ToString_decimal bits) else Inl CheckFailure)
      else if format = kDecimal then
        (let prefix = (if emit_bit_count then StrCat_nat (bit_count bits) @ [CHR 0x27] @ ''d''
                       else [])
         in Inr (prefix @ Bits_ToString_decimal bits))
      else if format = kBinary then
        Inr (StrCat_nat (bit_count bits) @ [CHR 0x27] @ ''b'' @ ToRawDigits format True bits)
      else if format = kHex then
        Inr (StrCat_nat (bit_count bits) @ [CHR 0x27] @ ''h'' @ ToRawDigits kHex True bits)
      else Inl CheckFailure)"

text \<open>The \<^verbatim>\<open>Emit\<close> methods of the expression nodes.  \<^verbatim>\<open>LogicRef::Emit\<close>, which is
  declared in \<^verbatim>\<open>vast.h\<close>, is the name of the declaration referred to.  A failed
  \<^verbatim>\<open>XLS_CHECK\<close> is \<open>Inl CheckFailure\<close>, and an operand that aborts makes the node
  abort.  The \<^verbatim>\<open>precedence()\<close> of an operator node is the \<open>p\<close> it carries.\<close>

fun Emit :: "Expression \<Rightarrow> fatal + string" where
  "Emit (Literal bits format emit_bit_count) = Literal_Emit bits format emit_bit_count"
| "Emit (LogicRef d) = Inr (GetName d)"
| "Emit (MacroRef name) = Inr (''`'' @ name)"
| "Emit (XSentinel w) = Inr (StrCat_int w @ [CHR 0x27] @ ''dx'')"
| "Emit (QuotedString str) = Inr ([CHR 0x22] @ str @ [CHR 0x22])"
| "Emit (Slice subject hi lo) =
     (if IsScalar subject then
        (if \<not> IsLiteralWithValue hi 0 then Inl CheckFailure
         else if \<not> IsLiteralWithValue lo 0 then Inl CheckFailure
         else Emit subject)
      else
        (case Emit subject of Inl f \<Rightarrow> Inl f | Inr s \<Rightarrow>
        (case Emit hi of Inl f \<Rightarrow> Inl f | Inr h \<Rightarrow>
        (case Emit lo of Inl f \<Rightarrow> Inl f | Inr l \<Rightarrow>
           Inr (s @ ''['' @ h @ '':'' @ l @ '']'')))))"
| "Emit (PartSelect subject start w) =
     (case Emit subject of Inl f \<Rightarrow> Inl f | Inr s \<Rightarrow>
     (case Emit start of Inl f \<Rightarrow> Inl f | Inr st \<Rightarrow>
     (case Emit w of Inl f \<Rightarrow> Inl f | Inr ws \<Rightarrow>
        Inr (s @ ''['' @ st @ '' +: '' @ ws @ '']''))))"
| "Emit (Index subject index) =
     (if IsScalar subject then
        (if \<not> IsLiteralWithValue index 0 then Inl CheckFailure
         else Emit subject)
      else
        (case Emit subject of Inl f \<Rightarrow> Inl f | Inr s \<Rightarrow>
        (case Emit index of Inl f \<Rightarrow> Inl f | Inr i \<Rightarrow>
           Inr (s @ ''['' @ i @ '']''))))"
| "Emit (Ternary test consequent alternate) =
     (case Emit test of Inl f \<Rightarrow> Inl f | Inr t \<Rightarrow>
     (case Emit consequent of Inl f \<Rightarrow> Inl f | Inr c \<Rightarrow>
     (case Emit alternate of Inl f \<Rightarrow> Inl f | Inr a \<Rightarrow>
        (let own = precedence (Ternary test consequent alternate)
         in Inr ((if precedence test \<le> own then ParenWrap t else t) @ '' ? '' @
                 (if precedence consequent \<le> own then ParenWrap c else c) @ '' : '' @
                 (if precedence alternate \<le> own then ParenWrap a else a))))))"
| "Emit (BinaryInfix lhs op rhs p) =
     (case Emit lhs of Inl f \<Rightarrow> Inl f | Inr l \<Rightarrow>
     (case Emit rhs of Inl f \<Rightarrow> Inl f | Inr r \<Rightarrow>
        (let lhs_string = (if precedence lhs < p then ParenWrap l else l);
             rhs_string = (if precedence rhs \<le> p then ParenWrap r else r)
         in Inr (lhs_string @ '' '' @ op @ '' '' @ rhs_string))))"
| "Emit (Concat replication args) =
     (case sequence (map Emit args) of Inl f \<Rightarrow> Inl f | Inr ss \<Rightarrow>
        (let arg_string = ''{'' @ StrJoin ss '', '' @ ''}''
         in (case replication of
               None \<Rightarrow> Inr arg_string
             | Some r \<Rightarrow>
                 (case Emit r of Inl f \<Rightarrow> Inl f
                  | Inr rs \<Rightarrow> Inr (''{'' @ rs @ arg_string @ ''}'')))))"
| "Emit (ArrayAssignmentPattern args) =
     (case sequence (map Emit args) of Inl f \<Rightarrow> Inl f | Inr ss \<Rightarrow>
        Inr ([CHR 0x27] @ ''{'' @ StrJoin ss '', '' @ ''}''))"
| "Emit (Unary op arg p) =
     (case Emit arg of Inl f \<Rightarrow> Inl f | Inr a \<Rightarrow>
        Inr (op @ (if precedence arg < p \<or> IsUnary arg then ParenWrap a else a)))"
| "Emit (SystemFunctionCall name args) =
     (case args of
        None \<Rightarrow> Inr (''$'' @ name)
      | Some as \<Rightarrow>
          (case sequence (map Emit as) of Inl f \<Rightarrow> Inl f
           | Inr ss \<Rightarrow> Inr (''$'' @ name @ ''('' @ StrJoin ss '', '' @ '')'')))"

subsection \<open>Data types: emission and bit counts\<close>

type_synonym uint64 = "64 word"
type_synonym int64 = "64 word"

text \<open>\<^verbatim>\<open>Expression::AsLiteralOrDie\<close>, followed by \<^verbatim>\<open>bits()\<close>.\<close>

fun AsLiteralOrDie_bits :: "Expression \<Rightarrow> fatal + Bits" where
  "AsLiteralOrDie_bits (Literal b f e) = Inr b"
| "AsLiteralOrDie_bits e = Inl CheckFailure"

text \<open>\<^verbatim>\<open>WidthToLimit\<close>: a string representation of the given expression minus one.
  \<^verbatim>\<open>value()\<close> on a failed \<^verbatim>\<open>StatusOr\<close> terminates the process; the subtraction is the
  one of \<^verbatim>\<open>uint64\<close>.\<close>

definition WidthToLimit :: "Expression \<Rightarrow> fatal + string" where
  "WidthToLimit expr =
     (if IsLiteral expr then
        (case AsLiteralOrDie_bits expr of Inl f \<Rightarrow> Inl f | Inr b \<Rightarrow>
        (case ToUint64 b of Inl st \<Rightarrow> Inl CheckFailure
         | Inr v \<Rightarrow> Inr (StrCat_uint64 (v - 1))))
      else
        (let literal = Literal (UBits 1 32) kDefault False;
             kBinarySubPrecedence = 9
         in Emit (BinaryInfix expr ''-'' literal kBinarySubPrecedence)))"

text \<open>\<^verbatim>\<open>WidthToRangeString\<close>: the string \<open> [width - 1:0]\<close>, empty for a null width.\<close>

definition WidthToRangeString :: "Expression option \<Rightarrow> fatal + string" where
  "WidthToRangeString w =
     (case w of None \<Rightarrow> Inr []
      | Some e \<Rightarrow>
          (case WidthToLimit e of Inl f \<Rightarrow> Inl f | Inr l \<Rightarrow> Inr ('' ['' @ l @ '':0]'')))"

text \<open>\<^verbatim>\<open>PackedDimsToRangeString\<close>: one range \<open>[dim - 1:0]\<close> per packed dimension, in
  order.\<close>

fun PackedDimsToRangeString :: "Expression list \<Rightarrow> fatal + string" where
  "PackedDimsToRangeString [] = Inr []"
| "PackedDimsToRangeString (dim # dims) =
     (case WidthToLimit dim of Inl f \<Rightarrow> Inl f | Inr l \<Rightarrow>
     (case PackedDimsToRangeString dims of Inl f \<Rightarrow> Inl f
      | Inr rest \<Rightarrow> Inr (''['' @ l @ '':0]'' @ rest)))"

text \<open>\<^verbatim>\<open>DataType::Emit\<close>.\<close>

definition DataType_Emit :: "DataType \<Rightarrow> fatal + string" where
  "DataType_Emit t =
     (let result = (if is_signed t then '' signed'' else [])
      in (case WidthToRangeString (width t) of Inl f \<Rightarrow> Inl f | Inr w \<Rightarrow>
         (case PackedDimsToRangeString (packed_dims t) of Inl f \<Rightarrow> Inl f
          | Inr d \<Rightarrow> Inr (result @ w @ d))))"

text \<open>\<^verbatim>\<open>DataType::WidthAsInt64\<close>.  The \<^verbatim>\<open>uint64\<close> of \<^verbatim>\<open>ToUint64\<close> becomes the \<^verbatim>\<open>int64\<close>
  of the result with its bits unchanged.\<close>

definition WidthAsInt64 :: "DataType \<Rightarrow> fatal + (Status + int64)" where
  "WidthAsInt64 t =
     (case width t of
        None \<Rightarrow> Inr (Inr 1)
      | Some w \<Rightarrow>
          (if \<not> IsLiteral w then
             (case Emit w of Inl f \<Rightarrow> Inl f
              | Inr s \<Rightarrow> Inr (Inl (FailedPreconditionError (''Width is not a literal: '' @ s))))
           else
             (case AsLiteralOrDie_bits w of Inl f \<Rightarrow> Inl f | Inr b \<Rightarrow> Inr (ToUint64 b))))"

text \<open>The loop of \<^verbatim>\<open>DataType::FlatBitCountAsInt64\<close> over the packed dimensions.  The
  product is the one of the machine: a signed overflow, which C++ leaves undefined, is
  written here as the wrap-around of the 64-bit word.\<close>

fun FlatBitCount_dims :: "int64 \<Rightarrow> Expression list \<Rightarrow> fatal + (Status + int64)" where
  "FlatBitCount_dims bc [] = Inr (Inr bc)"
| "FlatBitCount_dims bc (dim # dims) =
     (if \<not> IsLiteral dim then
        (case Emit dim of Inl f \<Rightarrow> Inl f
         | Inr s \<Rightarrow> Inr (Inl (FailedPreconditionError (''Dimension is not a literal:'' @ s))))
      else
        (case AsLiteralOrDie_bits dim of Inl f \<Rightarrow> Inl f | Inr b \<Rightarrow>
        (case ToUint64 b of Inl st \<Rightarrow> Inr (Inl st)
         | Inr dim_size \<Rightarrow> FlatBitCount_dims (bc * dim_size) dims)))"

text \<open>\<^verbatim>\<open>DataType::FlatBitCountAsInt64\<close>.\<close>

definition FlatBitCountAsInt64 :: "DataType \<Rightarrow> fatal + (Status + int64)" where
  "FlatBitCountAsInt64 t =
     (case WidthAsInt64 t of Inl f \<Rightarrow> Inl f
      | Inr (Inl st) \<Rightarrow> Inr (Inl st)
      | Inr (Inr bc) \<Rightarrow> FlatBitCount_dims bc (packed_dims t))"

subsection \<open>Ports\<close>

datatype Direction = kInput | kOutput

datatype DirectionProto = DIRECTION_INPUT | DIRECTION_OUTPUT

record Port =
  direction :: Direction
  wire :: Def

record PortProto =
  proto_direction :: DirectionProto
  proto_name :: string
  proto_width :: int64

text \<open>\<^verbatim>\<open>Port::ToProto\<close>.  The flat bit count of the wire is the one of the data type of
  the declaration.\<close>

definition Port_ToProto :: "Port \<Rightarrow> fatal + (Status + PortProto)" where
  "Port_ToProto port =
     (case FlatBitCountAsInt64 (data_type (wire port)) of Inl f \<Rightarrow> Inl f
      | Inr (Inl st) \<Rightarrow> Inr (Inl st)
      | Inr (Inr w) \<Rightarrow>
          Inr (Inr \<lparr> proto_direction =
                       (if direction port = kInput then DIRECTION_INPUT else DIRECTION_OUTPUT),
                     proto_name = GetName (wire port),
                     proto_width = w \<rparr>))"

subsection \<open>Statements\<close>

text \<open>Statements, conditionals and statement blocks.  A conditional owns its consequent
  and the blocks of its alternates; an alternate with a null condition is the "else".\<close>

datatype Statement =
    BlockingAssignment Expression Expression
  | NonblockingAssignment Expression Expression
  | RawStatement string
  | ConditionalStatement Conditional
  | WhileStatement Expression StatementBlock
and Conditional =
    Conditional (condition: Expression) (consequent: StatementBlock)
                (alternates: "(Expression option \<times> StatementBlock) list")
and StatementBlock =
    StatementBlock (statements: "Statement list")

text \<open>Modelled from the spec: the lines after the first of an indented text; two
  spaces follow every line break.\<close>

fun Indent_lines :: "string \<Rightarrow> string" where
  "Indent_lines [] = []"
| "Indent_lines (c # cs) =
     (if c = CHR 0x0A then c # ''  '' @ Indent_lines cs else c # Indent_lines cs)"

text \<open>Modelled from the spec: \<^verbatim>\<open>Indent\<close> is defined in \<^verbatim>\<open>xls/common/indent.h\<close>, outside
  \<^verbatim>\<open>vast.cc\<close>; every line of the text is indented by two spaces.\<close>

definition Indent :: "string \<Rightarrow> string" where
  "Indent s = ''  '' @ Indent_lines s"

text \<open>The \<^verbatim>\<open>Emit\<close> methods of the statements: \<^verbatim>\<open>StatementBlock::Emit\<close>,
  \<^verbatim>\<open>Conditional::Emit\<close> (its loop over the alternates is \<open>Emit_alternates\<close>) and
  the assignments.\<close>

fun Statement_Emit :: "Statement \<Rightarrow> fatal + string"
  and Conditional_Emit :: "Conditional \<Rightarrow> fatal + string"
  and Emit_alternates :: "(Expression option \<times> StatementBlock) list \<Rightarrow> fatal + string"
  and StatementBlock_Emit :: "StatementBlock \<Rightarrow> fatal + string"
  and Emit_statements :: "Statement list \<Rightarrow> fatal + string list"
where
  "Statement_Emit (BlockingAssignment lhs rhs) =
     (case Emit lhs of Inl f \<Rightarrow> Inl f | Inr l \<Rightarrow>
     (case Emit rhs of Inl f \<Rightarrow> Inl f | Inr r \<Rightarrow> Inr (l @ '' = '' @ r @ '';'')))"
| "Statement_Emit (NonblockingAssignment lhs rhs) =
     (case Emit lhs of Inl f \<Rightarrow> Inl f | Inr l \<Rightarrow>
     (case Emit rhs of Inl f \<Rightarrow> Inl f | Inr r \<Rightarrow> Inr (l @ '' <= '' @ r @ '';'')))"
| "Statement_Emit (RawStatement str) = Inr str"
| "Statement_Emit (ConditionalStatement c) = Conditional_Emit c"
| "Statement_Emit (WhileStatement cond body) =
     (case Emit cond of Inl f \<Rightarrow> Inl f | Inr c \<Rightarrow>
     (case StatementBlock_Emit body of Inl f \<Rightarrow> Inl f
      | Inr b \<Rightarrow> Inr (''while ('' @ c @ '') '' @ b)))"
| "Conditional_Emit (Conditional cond cons alts) =
     (case Emit cond of Inl f \<Rightarrow> Inl f | Inr c \<Rightarrow>
     (case StatementBlock_Emit cons of Inl f \<Rightarrow> Inl f | Inr b \<Rightarrow>
     (case Emit_alternates alts of Inl f \<Rightarrow> Inl f
      | Inr rest \<Rightarrow> Inr (''if ('' @ c @ '') '' @ b @ rest))))"
| "Emit_alternates [] = Inr []"
| "Emit_alternates (alternate # alts) =
     (case (case fst alternate of None \<Rightarrow> Inr []
            | Some e \<Rightarrow> (case Emit e of Inl f \<Rightarrow> Inl f
                         | Inr c \<Rightarrow> Inr (''if ('' @ c @ '') ''))) of
        Inl f \<Rightarrow> Inl f
      | Inr test \<Rightarrow>
     (case StatementBlock_Emit (snd alternate) of Inl f \<Rightarrow> Inl f | Inr b \<Rightarrow>
     (case Emit_alternates alts of Inl f \<Rightarrow> Inl f
      | Inr rest \<Rightarrow> Inr ('' else '' @ test @ b @ rest))))"
| "StatementBlock_Emit (StatementBlock stmts) =
     (if stmts = [] then Inr ''begin end''
      else
        (case Emit_statements stmts of Inl f \<Rightarrow> Inl f
         | Inr lines \<Rightarrow>
             Inr (''begin'' @ [CHR 0x0A] @ Indent (StrJoin lines [CHR 0x0A]) @ [CHR 0x0A] @ ''end'')))"
| "Emit_statements [] = Inr []"
| "Emit_statements (s # ss) =
     (case Statement_Emit s of Inl f \<Rightarrow> Inl f | Inr l \<Rightarrow>
     (case Emit_statements ss of Inl f \<Rightarrow> Inl f | Inr ls \<Rightarrow> Inr (l # ls)))"

subsection \<open>Building conditionals\<close>

text \<open>The constructor of \<^verbatim>\<open>Conditional\<close>: a fresh, empty consequent and no alternates.\<close>

definition Conditional_new :: "Expression \<Rightarrow> Conditional" where
  "Conditional_new cond = Conditional cond (StatementBlock []) []"

text \<open>\<^verbatim>\<open>Conditional::AddAlternate\<close>.  A null condition is \<open>None\<close>, the "else".  The
  block the method returns is the one of the last alternate of the result.\<close>

definition AddAlternate :: "Expression option \<Rightarrow> Conditional \<Rightarrow> fatal + Conditional" where
  "AddAlternate cond c =
     (if \<not> (alternates c = [] \<or> fst (last (alternates c)) \<noteq> None) then Inl CheckFailure
      else Inr (Conditional (condition c) (consequent c)
                            (alternates c @ [(cond, StatementBlock [])])))"

text \<open>Modelled from the spec: \<^verbatim>\<open>StatementBlock::Add\<close> (declared in \<^verbatim>\<open>vast.h\<close>) appends
  the new statement to the block.\<close>

definition StatementBlock_Add :: "Statement \<Rightarrow> StatementBlock \<Rightarrow> StatementBlock" where
  "StatementBlock_Add s b = StatementBlock (statements b @ [s])"

text \<open>
  What a client may do to one conditional after constructing it: add an alternate, or
  add a statement to the consequent or to the block of an alternate it was handed.
\<close>

datatype ConditionalCall =
    CallAddAlternate "Expression option"
  | CallAddToConsequent Statement
  | CallAddToAlternate nat Statement

fun Conditional_call :: "ConditionalCall \<Rightarrow> Conditional \<Rightarrow> fatal + Conditional" where
  "Conditional_call (CallAddAlternate cond) c = AddAlternate cond c"
| "Conditional_call (CallAddToConsequent s) c =
     Inr (Conditional (condition c) (StatementBlock_Add s (consequent c)) (alternates c))"
| "Conditional_call (CallAddToAlternate j s) c =
     (if j < length (alternates c) then
        Inr (Conditional (condition c) (consequent c)
               ((alternates c)[j := (fst (alternates c ! j),
                                     StatementBlock_Add s (snd (alternates c ! j)))]))
      else Inr c)"

fun Conditional_calls :: "ConditionalCall list \<Rightarrow> Conditional \<Rightarrow> fatal + Conditional" where
  "Conditional_calls [] c = Inr c"
| "Conditional_calls (call # calls) c =
     (case Conditional_call call c of Inl f \<Rightarrow> Inl f | Inr c' \<Rightarrow> Conditional_calls calls c')"

text \<open>The unconditional alternate, if there is one, is the last of the chain.\<close>

definition else_is_last :: "Conditional \<Rightarrow> bool" where
  "else_is_last c \<longleftrightarrow> list_all (\<lambda>a. fst a \<noteq> None) (butlast (alternates c))"

text \<open>The conditional has been closed with an unconditional alternate: the last
  alternate has no condition.\<close>

definition closed_with_else :: "Conditional \<Rightarrow> bool" where
  "closed_with_else c \<longleftrightarrow> alternates c \<noteq> [] \<and> fst (last (alternates c)) = None"

subsection \<open>The clocked-register block\<close>

text \<open>The reset descriptor.  A \<^verbatim>\<open>LogicRef*\<close> is kept as the declaration it refers to.\<close>

record Reset =
  signal :: Def
  asynchronous :: bool
  active_low :: bool

text \<open>Modelled from the spec: \<^verbatim>\<open>VerilogFile::LogicalNot\<close> (declared in \<^verbatim>\<open>vast.h\<close>)
  builds the unary operator \<^verbatim>\<open>!\<close>.\<close>

definition LogicalNot :: "Expression \<Rightarrow> Expression" where
  "LogicalNot e = Unary ''!'' e 12"

text \<open>
  \<^verbatim>\<open>AlwaysFlop\<close> owns its top block and keeps two pointers into it: the reset block
  (null without a reset) and the assignment block.  A pointer is the path from the top
  block to the block pointed to: the top block itself, the consequent of the
  conditional that is statement \<open>i\<close> of the top block, or the block of alternate \<open>j\<close> of
  that conditional.
\<close>

datatype BlockRef = TopBlock | ConsequentOf nat | AlternateOf nat nat

fun block_at :: "StatementBlock \<Rightarrow> BlockRef \<Rightarrow> StatementBlock option" where
  "block_at tb TopBlock = Some tb"
| "block_at tb (ConsequentOf i) =
     (if i < length (statements tb) then
        (case statements tb ! i of
           ConditionalStatement c \<Rightarrow> Some (consequent c)
         | _ \<Rightarrow> None)
      else None)"
| "block_at tb (AlternateOf i j) =
     (if i < length (statements tb) then
        (case statements tb ! i of
           ConditionalStatement c \<Rightarrow>
             (if j < length (alternates c) then Some (snd (alternates c ! j)) else None)
         | _ \<Rightarrow> None)
      else None)"

text \<open>\<^verbatim>\<open>block->Add\<close> through a pointer: the statement is appended to the block the
  path leads to (a path that leads nowhere changes nothing).\<close>

fun Add_at :: "BlockRef \<Rightarrow> Statement \<Rightarrow> StatementBlock \<Rightarrow> StatementBlock" where
  "Add_at TopBlock s tb = StatementBlock_Add s tb"
| "Add_at (ConsequentOf i) s tb =
     (if i < length (statements tb) then
        (case statements tb ! i of
           ConditionalStatement c \<Rightarrow>
             StatementBlock ((statements tb)[i := ConditionalStatement
               (Conditional (condition c) (StatementBlock_Add s (consequent c)) (alternates c))])
         | _ \<Rightarrow> tb)
      else tb)"
| "Add_at (AlternateOf i j) s tb =
     (if i < length (statements tb) then
        (case statements tb ! i of
           ConditionalStatement c \<Rightarrow>
             (if j < length (alternates c) then
                StatementBlock ((statements tb)[i := ConditionalStatement
                  (Conditional (condition c) (consequent c)
                     ((alternates c)[j := (fst (alternates c ! j),
                                           StatementBlock_Add s (snd (alternates c ! j)))]))])
              else tb)
         | _ \<Rightarrow> tb)
      else tb)"

record AlwaysFlop =
  clk :: Def
  rst :: "Reset option"
  top_block :: StatementBlock
  reset_block :: "BlockRef option"
  assignment_block :: BlockRef

text \<open>The constructor \<^verbatim>\<open>AlwaysFlop::AlwaysFlop\<close>.\<close>

definition AlwaysFlop_new :: "Def \<Rightarrow> Reset option \<Rightarrow> fatal + AlwaysFlop" where
  "AlwaysFlop_new clk_ref rst_opt =
     (case rst_opt of
        Some r \<Rightarrow>
          (let rst_condition =
                 (if active_low r then LogicalNot (LogicRef (signal r)) else LogicRef (signal r));
               conditional = Conditional_new rst_condition
           in (case AddAlternate None conditional of Inl f \<Rightarrow> Inl f
               | Inr conditional' \<Rightarrow>
                   Inr \<lparr> clk = clk_ref, rst = rst_opt,
                         top_block =
                           StatementBlock_Add (ConditionalStatement conditional') (StatementBlock []),
                         reset_block = Some (ConsequentOf 0),
                         assignment_block = AlternateOf 0 0 \<rparr>))
      | None \<Rightarrow>
          Inr \<lparr> clk = clk_ref, rst = rst_opt, top_block = StatementBlock [],
                reset_block = None, assignment_block = TopBlock \<rparr>)"

text \<open>\<^verbatim>\<open>AlwaysFlop::AddRegister\<close>.\<close>

definition AddRegister ::
  "Def \<Rightarrow> Expression \<Rightarrow> Expression option \<Rightarrow> AlwaysFlop \<Rightarrow> fatal + AlwaysFlop" where
  "AddRegister reg reg_next reset_value af =
     (case (case reset_value of
              None \<Rightarrow> Inr af
            | Some rv \<Rightarrow>
                (case reset_block af of
                   None \<Rightarrow> Inl CheckFailure
                 | Some rb \<Rightarrow>
                     Inr (af\<lparr> top_block :=
                            Add_at rb (NonblockingAssignment (LogicRef reg) rv) (top_block af) \<rparr>))) of
        Inl f \<Rightarrow> Inl f
      | Inr af' \<Rightarrow>
          Inr (af'\<lparr> top_block :=
                 Add_at (assignment_block af')
                   (NonblockingAssignment (LogicRef reg) reg_next) (top_block af') \<rparr>))"

text \<open>A sequence of \<^verbatim>\<open>AddRegister\<close> calls, each with its register, next value and
  optional reset value.\<close>

fun AddRegisters ::
  "(Def \<times> Expression \<times> Expression option) list \<Rightarrow> AlwaysFlop \<Rightarrow> fatal + AlwaysFlop" where
  "AddRegisters [] af = Inr af"
| "AddRegisters (r # rs) af =
     (case AddRegister (fst r) (fst (snd r)) (snd (snd r)) af of
        Inl f \<Rightarrow> Inl f
      | Inr af' \<Rightarrow> AddRegisters rs af')"

text \<open>The local \<^verbatim>\<open>sensitivity_list\<close> of \<^verbatim>\<open>AlwaysFlop::Emit\<close>, and the method itself.\<close>

definition sensitivity_list :: "AlwaysFlop \<Rightarrow> fatal + string" where
  "sensitivity_list af =
     (case Emit (LogicRef (clk af)) of Inl f \<Rightarrow> Inl f | Inr c \<Rightarrow>
        (case rst af of
           None \<Rightarrow> Inr (''posedge '' @ c)
         | Some r \<Rightarrow>
             (if asynchronous r then
                (case Emit (LogicRef (signal r)) of Inl f \<Rightarrow> Inl f
                 | Inr s \<Rightarrow>
                     Inr (''posedge '' @ c @ '' or '' @
                          (if active_low r then ''negedge'' else ''posedge'') @ '' '' @ s))
              else Inr (''posedge '' @ c))))"

definition AlwaysFlop_Emit :: "AlwaysFlop \<Rightarrow> fatal + string" where
  "AlwaysFlop_Emit af =
     (case sensitivity_list af of Inl f \<Rightarrow> Inl f | Inr sl \<Rightarrow>
     (case StatementBlock_Emit (top_block af) of Inl f \<Rightarrow> Inl f
      | Inr b \<Rightarrow> Inr (''always @ ('' @ sl @ '') '' @ b)))"

subsection \<open>Reading numerals back\<close>

text \<open>The number a string of decimal digits denotes, used to state what an emitted
  numeral means.\<close>

definition decimal_value :: "string \<Rightarrow> nat" where
  "decimal_value s = foldl (\<lambda>acc c. 10 * acc + (of_char c - 48)) 0 s"

text \<open>The value of a digit of any radix up to 16 (\<open>0\<close> to \<open>9\<close>, then \<open>a\<close> to \<open>f\<close>), and
  the number a string of such digits denotes in radix \<open>r\<close>.\<close>

definition digit_value :: "char \<Rightarrow> nat" where
  "digit_value c = (if of_char c < (58::nat) then of_char c - 48 else of_char c - 87)"

definition radix_value :: "nat \<Rightarrow> string \<Rightarrow> nat" where
  "radix_value r s = foldl (\<lambda>acc c. r * acc + digit_value c) 0 s"

subsection \<open>Reading the blocks of a clocked-register block\<close>

text \<open>The blocks the two pointers of an \<^verbatim>\<open>AlwaysFlop\<close> lead to; the reset block of a
  null pointer is \<open>None\<close>.\<close>

definition reset_block_of :: "AlwaysFlop \<Rightarrow> StatementBlock option" where
  "reset_block_of af =
     (case reset_block af of None \<Rightarrow> None | Some rb \<Rightarrow> block_at (top_block af) rb)"

definition assignment_block_of :: "AlwaysFlop \<Rightarrow> StatementBlock option" where
  "assignment_block_of af = block_at (top_block af) (assignment_block af)"

text \<open>What the constructor builds for a reset and \<^verbatim>\<open>AddRegister\<close> keeps: the top block
  holds one conditional with one alternate, the "else"; the reset block is its
  consequent and the assignment block the block of the alternate.\<close>

fun is_reset_conditional :: "Statement list \<Rightarrow> bool" where
  "is_reset_conditional [ConditionalStatement (Conditional c rb [(None, ab)])] = True"
| "is_reset_conditional stmts = False"

definition with_reset_shape :: "AlwaysFlop \<Rightarrow> bool" where
  "with_reset_shape af \<longleftrightarrow>
     reset_block af = Some (ConsequentOf 0) \<and> assignment_block af = AlternateOf 0 0 \<and>
     is_reset_conditional (statements (top_block af))"

text \<open>What the constructor builds without a reset: no reset block, and the assignment
  block is the top block.\<close>

definition without_reset_shape :: "AlwaysFlop \<Rightarrow> bool" where
  "without_reset_shape af \<longleftrightarrow> reset_block af = None \<and> assignment_block af = TopBlock"

subsection \<open>What a flat bit count is meant to be\<close>

text \<open>The value of a literal expression (0 for any other node), the width and dimension
  expressions of a data type in the order \<^verbatim>\<open>FlatBitCountAsInt64\<close> visits them, and the
  product of the width (1 when there is none) and every dimension size.\<close>

fun literal_value :: "Expression \<Rightarrow> nat" where
  "literal_value (Literal b f e) = Bits_value b"
| "literal_value e = 0"

definition DataType_exprs :: "DataType \<Rightarrow> Expression list" where
  "DataType_exprs t = (case width t of None \<Rightarrow> [] | Some w \<Rightarrow> [w]) @ packed_dims t"

definition flat_product :: "DataType \<Rightarrow> nat" where
  "flat_product t =
     (case width t of None \<Rightarrow> 1 | Some w \<Rightarrow> literal_value w) *
     prod_list (map literal_value (packed_dims t))"

section \<open>Properties\<close>

subsection \<open>Facts shared by the proofs\<close>

lemma fatal_eq: "(f :: fatal) = g"
  by (cases f; cases g) simp

lemma Bits_value_bound: "Bits_value b < 2 ^ length b"
  by (induction b) auto

lemma BinaryInfix_Emit_Inr:
  assumes "Emit lhs = Inr l" and "Emit rhs = Inr r"
  shows "Emit (BinaryInfix lhs op rhs p) =
           Inr ((if precedence lhs < p then ''('' @ l @ '')'' else l) @ '' '' @ op @ '' '' @
                (if precedence rhs \<le> p then ''('' @ r @ '')'' else r))"
  using assms by (simp add: ParenWrap_def)

lemma BinaryInfix_Emit_Inl:
  "Emit (BinaryInfix lhs op rhs p) = Inl f \<longleftrightarrow> Emit lhs = Inl f \<or> Emit rhs = Inl f"
  by (auto split: sum.splits simp: Let_def intro: fatal_eq)

subsection \<open>Binary operators\<close>

text \<open>
  C1.  For every binary-infix node whose operands emit the texts \<open>l\<close> and \<open>r\<close>, the
  emitted text is \<open>l op r\<close> where the left operand is wrapped in parentheses exactly
  when its precedence is strictly less than the operator's and the right operand exactly
  when its precedence is less than or equal to it; the node aborts only when an operand
  does.
\<close>

theorem BinaryInfix_Emit_parenthesizes:
  "(\<forall>l r. Emit lhs = Inr l \<and> Emit rhs = Inr r \<longrightarrow>
      Emit (BinaryInfix lhs op rhs p) =
        Inr ((if precedence lhs < p then ''('' @ l @ '')'' else l) @ '' '' @ op @ '' '' @
             (if precedence rhs \<le> p then ''('' @ r @ '')'' else r)))
   \<and> (Emit (BinaryInfix lhs op rhs p) = Inl CheckFailure \<longleftrightarrow>
        Emit lhs = Inl CheckFailure \<or> Emit rhs = Inl CheckFailure)"
  using BinaryInfix_Emit_Inr BinaryInfix_Emit_Inl by blast

theorem BinaryInfix_Emit_parenthesizes_witness:
  "Emit (BinaryInfix (LogicRef (Def ''a'' kWire (DataType None False []))) ''-''
           (BinaryInfix (LogicRef (Def ''b'' kWire (DataType None False []))) ''-''
                        (LogicRef (Def ''c'' kWire (DataType None False []))) 9) 9)
     = Inr ''a - (b - c)''
   \<and> Emit (BinaryInfix
           (BinaryInfix (LogicRef (Def ''a'' kWire (DataType None False []))) ''-''
                        (LogicRef (Def ''b'' kWire (DataType None False []))) 9) ''-''
           (LogicRef (Def ''c'' kWire (DataType None False []))) 9)
     = Inr ''a - b - c''"
  using BinaryInfix_Emit_parenthesizes
          [of "LogicRef (Def ''a'' kWire (DataType None False []))"
              "BinaryInfix (LogicRef (Def ''b'' kWire (DataType None False []))) ''-''
                           (LogicRef (Def ''c'' kWire (DataType None False []))) 9" "''-''" 9]
        BinaryInfix_Emit_parenthesizes
          [of "BinaryInfix (LogicRef (Def ''a'' kWire (DataType None False []))) ''-''
                           (LogicRef (Def ''b'' kWire (DataType None False []))) 9"
              "LogicRef (Def ''c'' kWire (DataType None False []))" "''-''" 9]
  by (simp add: kMaxPrecedence_def ParenWrap_def)

subsection \<open>Decimal numerals\<close>

lemma below_ten:
  assumes "(n::nat) < 10" and "\<forall>k\<in>{0, 1, 2, 3, 4, 5, 6, 7, 8, 9}. P k"
  shows "P n"
proof -
  from assms(1) have "n \<in> {0, 1, 2, 3, 4, 5, 6, 7, 8, 9}"
    by (simp add: eval_nat_numeral less_Suc_eq)
  with assms(2) show ?thesis ..
qed

lemma digit_of_char:
  assumes "n < 10"
  shows "of_char (''0123456789'' ! n) = 48 + n"
  using assms by (rule below_ten) simp

lemma digit_in_set:
  assumes "n < 10"
  shows "''0123456789'' ! n \<in> set ''0123456789''"
  using assms by (rule below_ten) simp

lemma StrCat_nat_digits: "set (StrCat_nat n) \<subseteq> set ''0123456789''"
proof (induction n rule: StrCat_nat.induct)
  case (1 n)
  show ?case
  proof (cases "n < 10")
    case True
    then show ?thesis
      using digit_in_set [of n] by (subst StrCat_nat.simps) simp
  next
    case False
    have "n mod 10 < 10" by simp
    then have "''0123456789'' ! (n mod 10) \<in> set ''0123456789''"
      by (rule digit_in_set)
    with False "1.IH" show ?thesis
      by (subst StrCat_nat.simps) simp
  qed
qed

lemma decimal_value_snoc:
  "decimal_value (s @ [c]) = 10 * decimal_value s + (of_char c - 48)"
  by (simp add: decimal_value_def)

lemma decimal_value_StrCat_nat: "decimal_value (StrCat_nat n) = n"
proof (induction n rule: StrCat_nat.induct)
  case (1 n)
  show ?case
  proof (cases "n < 10")
    case True
    then show ?thesis
      by (subst StrCat_nat.simps) (simp add: decimal_value_def digit_of_char)
  next
    case False
    have "n mod 10 < 10" by simp
    then have "of_char (''0123456789'' ! (n mod 10)) = 48 + n mod 10"
      by (rule digit_of_char)
    with False "1.IH" show ?thesis
      by (subst StrCat_nat.simps) (simp add: decimal_value_snoc)
  qed
qed

lemma Literal_kDefault_Emit:
  "Emit (Literal b kDefault e) =
     (if bit_count b \<le> 32 then Inr (StrCat_nat (Bits_value b)) else Inl CheckFailure)"
  by (simp add: Literal_Emit_def Bits_ToString_decimal_def)

subsection \<open>Literals in the default format\<close>

text \<open>
  C7.  A literal with the default format preference and a bit width of at most 32 emits
  the plain decimal numeral of its value: only decimal digits (so no width and no radix
  prefix), and they denote the value.  With a bit width above 32 the emission fails the
  check and aborts; \<^verbatim>\<open>Emit\<close> has no other way to fail.
\<close>

theorem Literal_kDefault_Emit_plain_decimal:
  "(bit_count b \<le> 32 \<longrightarrow>
      Emit (Literal b kDefault e) = Inr (StrCat_nat (Bits_value b))
      \<and> set (StrCat_nat (Bits_value b)) \<subseteq> set ''0123456789''
      \<and> decimal_value (StrCat_nat (Bits_value b)) = Bits_value b)
   \<and> (32 < bit_count b \<longrightarrow> Emit (Literal b kDefault e) = Inl CheckFailure)"
  using Literal_kDefault_Emit [of b e] StrCat_nat_digits [of "Bits_value b"]
        decimal_value_StrCat_nat [of "Bits_value b"]
  by auto

theorem Literal_kDefault_Emit_plain_decimal_witness:
  "Emit (Literal [False, True, False, True, False, True, False, False] kDefault False) = Inr ''42''
   \<and> Emit (Literal (replicate 33 False) kDefault False) = Inl CheckFailure"
  using Literal_kDefault_Emit_plain_decimal [of "[False, True, False, True, False, True, False, False]" False]
        Literal_kDefault_Emit_plain_decimal [of "replicate 33 False" False]
  by (simp add: bit_count_def StrCat_nat.simps)

subsection \<open>Literals with a radix\<close>

lemma length_binary_digits: "length (binary_digits b) = bit_count b"
  by (simp add: binary_digits_def bit_count_def)

lemma length_hex_digits: "length (hex_digits b) = (length b + 3) div 4"
  by (induction b rule: hex_digits.induct) simp_all

lemma set_binary_digits: "set (binary_digits b) \<subseteq> set ''01''"
  by (auto simp: binary_digits_def)

lemma below_sixteen:
  assumes "(n::nat) < 16"
    and "\<forall>k\<in>{0, 1, 2, 3, 4, 5, 6, 7, 8, 9, 10, 11, 12, 13, 14, 15}. P k"
  shows "P n"
proof -
  from assms(1) have "n \<in> {0, 1, 2, 3, 4, 5, 6, 7, 8, 9, 10, 11, 12, 13, 14, 15}"
    by (simp add: eval_nat_numeral less_Suc_eq)
  with assms(2) show ?thesis ..
qed

lemma hex_digit_in_set:
  assumes "n < 16"
  shows "''0123456789abcdef'' ! n \<in> set ''0123456789abcdef''"
  using assms by (rule below_sixteen) simp

lemma hex_digit_value:
  assumes "n < 16"
  shows "digit_value (''0123456789abcdef'' ! n) = n"
  using assms by (rule below_sixteen) (simp add: digit_value_def)

lemma Bits_value_nibble:
  assumes "length bs \<le> 4"
  shows "Bits_value bs < 16"
proof -
  have "Bits_value bs < 2 ^ length bs"
    by (rule Bits_value_bound)
  also have "(2::nat) ^ length bs \<le> 2 ^ 4"
    using assms by (intro power_increasing) simp_all
  finally show ?thesis by simp
qed

lemma set_hex_digits: "set (hex_digits b) \<subseteq> set ''0123456789abcdef''"
proof (induction b rule: hex_digits.induct)
  case (1 a b c d rest)
  have "''0123456789abcdef'' ! Bits_value [a, b, c, d] \<in> set ''0123456789abcdef''"
    by (intro hex_digit_in_set Bits_value_nibble) simp
  with 1 show ?case
    by (simp del: Bits_value.simps)
next
  case 2
  then show ?case by simp
next
  case (3 v)
  have "''0123456789abcdef'' ! Bits_value [v] \<in> set ''0123456789abcdef''"
    by (intro hex_digit_in_set Bits_value_nibble) simp
  then show ?case by (simp del: Bits_value.simps)
next
  case (4 v va)
  have "''0123456789abcdef'' ! Bits_value [v, va] \<in> set ''0123456789abcdef''"
    by (intro hex_digit_in_set Bits_value_nibble) simp
  then show ?case by (simp del: Bits_value.simps)
next
  case (5 v va vb)
  have "''0123456789abcdef'' ! Bits_value [v, va, vb] \<in> set ''0123456789abcdef''"
    by (intro hex_digit_in_set Bits_value_nibble) simp
  then show ?case by (simp del: Bits_value.simps)
qed

lemma binary_digits_no_separator: "CHR ''_'' \<notin> set (binary_digits b)"
  using set_binary_digits [of b] by auto

lemma hex_digits_no_separator: "CHR ''_'' \<notin> set (hex_digits b)"
  using set_hex_digits [of b] by auto

lemma radix_value_snoc: "radix_value r (s @ [c]) = r * radix_value r s + digit_value c"
  by (simp add: radix_value_def)

lemma radix_value_binary_digits: "radix_value 2 (binary_digits b) = Bits_value b"
proof (induction b)
  case Nil
  then show ?case by (simp add: binary_digits_def radix_value_def)
next
  case (Cons x xs)
  have "binary_digits (x # xs) = binary_digits xs @ [if x then CHR ''1'' else CHR ''0'']"
    by (simp add: binary_digits_def)
  with Cons show ?case
    by (simp add: radix_value_snoc digit_value_def)
qed

lemma radix_value_hex_digit:
  assumes "length bs \<le> 4"
  shows "radix_value 16 [''0123456789abcdef'' ! Bits_value bs] = Bits_value bs"
proof -
  from assms have "Bits_value bs < 16"
    by (rule Bits_value_nibble)
  then have "digit_value (''0123456789abcdef'' ! Bits_value bs) = Bits_value bs"
    by (rule hex_digit_value)
  then show ?thesis
    by (simp add: radix_value_def)
qed

lemma radix_value_hex_digits: "radix_value 16 (hex_digits b) = Bits_value b"
proof (induction b rule: hex_digits.induct)
  case (1 a b c d rest)
  have "Bits_value [a, b, c, d] < 16"
    by (rule Bits_value_nibble) simp
  then have "digit_value (''0123456789abcdef'' ! Bits_value [a, b, c, d]) = Bits_value [a, b, c, d]"
    by (rule hex_digit_value)
  moreover have "Bits_value (a # b # c # d # rest) = 16 * Bits_value rest + Bits_value [a, b, c, d]"
    by simp
  ultimately show ?case
    using 1 by (simp add: radix_value_snoc del: Bits_value.simps)
next
  case 2
  then show ?case by (simp add: radix_value_def)
next
  case (3 v)
  show ?case
    using radix_value_hex_digit [of "[v]"] by (simp del: Bits_value.simps)
next
  case (4 v va)
  show ?case
    using radix_value_hex_digit [of "[v, va]"] by (simp del: Bits_value.simps)
next
  case (5 v va vb)
  show ?case
    using radix_value_hex_digit [of "[v, va, vb]"] by (simp del: Bits_value.simps)
qed

lemma filter_separate_groups_rev:
  assumes "CHR ''_'' \<notin> set ds"
  shows "filter (\<lambda>c. c \<noteq> CHR ''_'') (separate_groups_rev ds) = ds"
  using assms by (induction ds rule: separate_groups_rev.induct) auto

lemma filter_separate_groups:
  assumes "CHR ''_'' \<notin> set s"
  shows "filter (\<lambda>c. c \<noteq> CHR ''_'') (separate_groups s) = s"
  using assms by (simp add: separate_groups_def rev_filter [symmetric] filter_separate_groups_rev)

lemma set_separate_groups_rev: "set (separate_groups_rev ds) \<subseteq> insert (CHR ''_'') (set ds)"
  by (induction ds rule: separate_groups_rev.induct) auto

lemma set_separate_groups: "set (separate_groups s) \<subseteq> insert (CHR ''_'') (set s)"
  using set_separate_groups_rev [of "rev s"] by (simp add: separate_groups_def)

lemma separate_groups_rev_nth:
  assumes "CHR ''_'' \<notin> set ds" and "i < length (separate_groups_rev ds)"
  shows "separate_groups_rev ds ! i = CHR ''_'' \<longleftrightarrow> i mod 5 = 4"
  using assms
proof (induction ds arbitrary: i rule: separate_groups_rev.induct)
  case (1 a b c d e rest)
  show ?case
  proof (cases "i < 5")
    case True
    then have "i = 0 \<or> i = 1 \<or> i = 2 \<or> i = 3 \<or> i = 4"
      by arith
    with "1.prems"(1) show ?thesis
      by auto
  next
    case False
    then obtain j where i: "i = j + 5"
      by (metis add.commute le_Suc_ex not_less)
    with "1.prems" have "j < length (separate_groups_rev (e # rest))"
      and "CHR ''_'' \<notin> set (e # rest)"
      by simp_all
    with "1.IH" have "separate_groups_rev (e # rest) ! j = CHR ''_'' \<longleftrightarrow> j mod 5 = 4"
      by blast
    moreover have "separate_groups_rev (a # b # c # d # e # rest) ! i
        = separate_groups_rev (e # rest) ! j"
      using i by (simp add: eval_nat_numeral)
    moreover have "i mod 5 = j mod 5"
      using i by simp
    ultimately show ?thesis
      by simp
  qed
qed (auto simp: less_Suc_eq nth_Cons')

lemma separate_groups_nth:
  assumes "CHR ''_'' \<notin> set s" and "i < length (separate_groups s)"
  shows "rev (separate_groups s) ! i = CHR ''_'' \<longleftrightarrow> i mod 5 = 4"
  using assms separate_groups_rev_nth [of "rev s" i] by (simp add: separate_groups_def)

lemma ToRawDigits_kBinary:
  "ToRawDigits kBinary True b = (if bit_count b = 0 then ''0'' else separate_groups (binary_digits b))"
  by (simp add: ToRawDigits_def)

lemma ToRawDigits_kHex:
  "ToRawDigits kHex True b = (if bit_count b = 0 then ''0'' else separate_groups (hex_digits b))"
  by (simp add: ToRawDigits_def)

lemma ToRawDigits_kBinary_digits:
  "filter (\<lambda>c. c \<noteq> CHR ''_'') (ToRawDigits kBinary True b) =
     (if bit_count b = 0 then ''0'' else binary_digits b)"
  by (simp add: ToRawDigits_kBinary filter_separate_groups binary_digits_no_separator)

lemma ToRawDigits_kHex_digits:
  "filter (\<lambda>c. c \<noteq> CHR ''_'') (ToRawDigits kHex True b) =
     (if bit_count b = 0 then ''0'' else hex_digits b)"
  by (simp add: ToRawDigits_kHex filter_separate_groups hex_digits_no_separator)

lemma ToRawDigits_kBinary_set: "set (ToRawDigits kBinary True b) \<subseteq> set ''01_''"
proof (cases "bit_count b = 0")
  case True
  then show ?thesis
    by (simp add: ToRawDigits_kBinary)
next
  case False
  have "set (separate_groups (binary_digits b)) \<subseteq> insert (CHR ''_'') (set ''01'')"
    using set_separate_groups [of "binary_digits b"] set_binary_digits [of b] by blast
  moreover have "insert (CHR ''_'') (set ''01'') = set ''01_''"
    by auto
  ultimately show ?thesis
    using False by (simp only: ToRawDigits_kBinary if_False)
qed

lemma ToRawDigits_kHex_set: "set (ToRawDigits kHex True b) \<subseteq> set ''0123456789abcdef_''"
proof (cases "bit_count b = 0")
  case True
  then show ?thesis
    by (simp add: ToRawDigits_kHex)
next
  case False
  have "set (separate_groups (hex_digits b)) \<subseteq> insert (CHR ''_'') (set ''0123456789abcdef'')"
    using set_separate_groups [of "hex_digits b"] set_hex_digits [of b] by blast
  moreover have "''0123456789abcdef_'' = ''0123456789abcdef'' @ [CHR ''_'']"
    by simp
  then have "insert (CHR ''_'') (set ''0123456789abcdef'') = set ''0123456789abcdef_''"
    by (simp only: set_append list.set Un_insert_right Un_empty_right)
  ultimately show ?thesis
    using False by (simp only: ToRawDigits_kHex if_False)
qed

lemma ToRawDigits_kBinary_value:
  "radix_value 2 (filter (\<lambda>c. c \<noteq> CHR ''_'') (ToRawDigits kBinary True b)) = Bits_value b"
  by (simp add: ToRawDigits_kBinary_digits radix_value_binary_digits)
     (simp add: bit_count_def radix_value_def digit_value_def)

lemma ToRawDigits_kHex_value:
  "radix_value 16 (filter (\<lambda>c. c \<noteq> CHR ''_'') (ToRawDigits kHex True b)) = Bits_value b"
  by (simp add: ToRawDigits_kHex_digits radix_value_hex_digits)
     (simp add: bit_count_def radix_value_def digit_value_def)

lemma ToRawDigits_kBinary_separators:
  assumes "i < length (ToRawDigits kBinary True b)"
  shows "rev (ToRawDigits kBinary True b) ! i = CHR ''_'' \<longleftrightarrow> i mod 5 = 4"
  using assms separate_groups_nth [OF binary_digits_no_separator, of i b]
  by (simp add: ToRawDigits_kBinary split: if_splits)

lemma ToRawDigits_kHex_separators:
  assumes "i < length (ToRawDigits kHex True b)"
  shows "rev (ToRawDigits kHex True b) ! i = CHR ''_'' \<longleftrightarrow> i mod 5 = 4"
  using assms separate_groups_nth [OF hex_digits_no_separator, of i b]
  by (simp add: ToRawDigits_kHex split: if_splits)

lemma Literal_kDecimal_Emit:
  "Emit (Literal b kDecimal e) =
     Inr ((if e then StrCat_nat (bit_count b) @ [CHR 0x27] @ ''d'' else []) @
          StrCat_nat (Bits_value b))"
  by (simp add: Literal_Emit_def Bits_ToString_decimal_def)

lemma Literal_kBinary_Emit:
  "Emit (Literal b kBinary e) =
     Inr (StrCat_nat (bit_count b) @ [CHR 0x27] @ ''b'' @ ToRawDigits kBinary True b)"
  by (simp add: Literal_Emit_def)

lemma Literal_kHex_Emit:
  "Emit (Literal b kHex e) =
     Inr (StrCat_nat (bit_count b) @ [CHR 0x27] @ ''h'' @ ToRawDigits kHex True b)"
  by (simp add: Literal_Emit_def)

text \<open>
  C2, as stated, fails: a binary (or hex) literal carries its \<open>width'radix\<close> prefix also
  when the emit-bit-count flag is false.  The four-bit pattern 0101 in binary format
  with the flag false emits \<open>4'b0101\<close>, not the bare digits.
\<close>

theorem Literal_Emit_binary_prefix_counterexample:
  "Emit (Literal [True, False, True, False] kBinary False) = Inr (''4'' @ [CHR 0x27] @ ''b0101'')
   \<and> Emit (Literal [True, False, True, False] kBinary False) \<noteq> Inr ''0101''"
  by (simp add: Literal_Emit_def ToRawDigits_def binary_digits_def separate_groups_def
      bit_count_def StrCat_nat.simps)

text \<open>
  C2, amended.  A decimal literal emits the decimal numeral of its value, preceded by
  \<open>width'd\<close> exactly when the emit-bit-count flag is set.  A binary literal emits
  \<open>width'b\<close> and a hex literal \<open>width'h\<close>, whatever the flag, followed by the digits
  rendered with leading zeros.  These consist of digits of the radix and the separator
  \<open>_\<close>, which stands after every group of four digits counted from the right and
  nowhere else; the digits denote the value of the literal and, for a literal of at
  least one bit, there is one binary digit per bit and one hex digit per four bits
  (rounded up): the value zero-padded to the full bit width.
\<close>

theorem Literal_Emit_radix_formats:
  "Emit (Literal b kDecimal e) =
     Inr ((if e then StrCat_nat (bit_count b) @ [CHR 0x27] @ ''d'' else []) @
          StrCat_nat (Bits_value b))
   \<and> Emit (Literal b kBinary e) =
       Inr (StrCat_nat (bit_count b) @ [CHR 0x27] @ ''b'' @ ToRawDigits kBinary True b)
   \<and> Emit (Literal b kHex e) =
       Inr (StrCat_nat (bit_count b) @ [CHR 0x27] @ ''h'' @ ToRawDigits kHex True b)
   \<and> set (ToRawDigits kBinary True b) \<subseteq> set ''01_''
   \<and> set (ToRawDigits kHex True b) \<subseteq> set ''0123456789abcdef_''
   \<and> radix_value 2 (filter (\<lambda>c. c \<noteq> CHR ''_'') (ToRawDigits kBinary True b)) = Bits_value b
   \<and> radix_value 16 (filter (\<lambda>c. c \<noteq> CHR ''_'') (ToRawDigits kHex True b)) = Bits_value b
   \<and> (0 < bit_count b \<longrightarrow>
        length (filter (\<lambda>c. c \<noteq> CHR ''_'') (ToRawDigits kBinary True b)) = bit_count b
        \<and> length (filter (\<lambda>c. c \<noteq> CHR ''_'') (ToRawDigits kHex True b))
            = (bit_count b + 3) div 4)
   \<and> (\<forall>i < length (ToRawDigits kBinary True b).
        rev (ToRawDigits kBinary True b) ! i = CHR ''_'' \<longleftrightarrow> i mod 5 = 4)
   \<and> (\<forall>i < length (ToRawDigits kHex True b).
        rev (ToRawDigits kHex True b) ! i = CHR ''_'' \<longleftrightarrow> i mod 5 = 4)"
proof (intro conjI impI allI)
  show "Emit (Literal b kDecimal e) =
     Inr ((if e then StrCat_nat (bit_count b) @ [CHR 0x27] @ ''d'' else []) @
          StrCat_nat (Bits_value b))"
    by (rule Literal_kDecimal_Emit)
  show "Emit (Literal b kBinary e) =
       Inr (StrCat_nat (bit_count b) @ [CHR 0x27] @ ''b'' @ ToRawDigits kBinary True b)"
    by (rule Literal_kBinary_Emit)
  show "Emit (Literal b kHex e) =
       Inr (StrCat_nat (bit_count b) @ [CHR 0x27] @ ''h'' @ ToRawDigits kHex True b)"
    by (rule Literal_kHex_Emit)
  show "set (ToRawDigits kBinary True b) \<subseteq> set ''01_''"
    by (rule ToRawDigits_kBinary_set)
  show "set (ToRawDigits kHex True b) \<subseteq> set ''0123456789abcdef_''"
    by (rule ToRawDigits_kHex_set)
  show "radix_value 2 (filter (\<lambda>c. c \<noteq> CHR ''_'') (ToRawDigits kBinary True b)) = Bits_value b"
    by (rule ToRawDigits_kBinary_value)
  show "radix_value 16 (filter (\<lambda>c. c \<noteq> CHR ''_'') (ToRawDigits kHex True b)) = Bits_value b"
    by (rule ToRawDigits_kHex_value)
next
  assume "0 < bit_count b"
  then show "length (filter (\<lambda>c. c \<noteq> CHR ''_'') (ToRawDigits kBinary True b)) = bit_count b"
    by (simp add: ToRawDigits_kBinary_digits length_binary_digits)
  from \<open>0 < bit_count b\<close>
  show "length (filter (\<lambda>c. c \<noteq> CHR ''_'') (ToRawDigits kHex True b)) = (bit_count b + 3) div 4"
    by (simp add: ToRawDigits_kHex_digits length_hex_digits bit_count_def)
next
  fix i assume "i < length (ToRawDigits kBinary True b)"
  then show "rev (ToRawDigits kBinary True b) ! i = CHR ''_'' \<longleftrightarrow> i mod 5 = 4"
    by (rule ToRawDigits_kBinary_separators)
next
  fix i assume "i < length (ToRawDigits kHex True b)"
  then show "rev (ToRawDigits kHex True b) ! i = CHR ''_'' \<longleftrightarrow> i mod 5 = 4"
    by (rule ToRawDigits_kHex_separators)
qed

theorem Literal_Emit_radix_formats_witness:
  "Emit (Literal [False, True, False, True, False, True, False, False] kDecimal True)
     = Inr (''8'' @ [CHR 0x27] @ ''d42'')
   \<and> Emit (Literal [False, True, False, True, False, True, False, False] kDecimal False)
     = Inr ''42''
   \<and> Emit (Literal [False, True, False, True, False, True, False, False] kBinary True)
     = Inr (''8'' @ [CHR 0x27] @ ''b0010_1010'')
   \<and> Emit (Literal [False, True, False, True, False, True, False, False] kHex False)
     = Inr (''8'' @ [CHR 0x27] @ ''h2a'')
   \<and> Emit (Literal [True, False, False, True, True, True, False, False, False, False,
                     False, False, True, True, False, False, False, False, False, False,
                     False, False, False, False, False, False, False, False, False, False,
                     False, False, False, False, False, False, False, False, False, False,
                     False, False] kHex True)
     = Inr (''42'' @ [CHR 0x27] @ ''h000_0000_3039'')"
  using Literal_Emit_radix_formats [of "[False, True, False, True, False, True, False, False]" True]
        Literal_Emit_radix_formats [of "[False, True, False, True, False, True, False, False]" False]
        Literal_Emit_radix_formats
          [of "[True, False, False, True, True, True, False, False, False, False,
                False, False, True, True, False, False, False, False, False, False,
                False, False, False, False, False, False, False, False, False, False,
                False, False, False, False, False, False, False, False, False, False,
                False, False]" True]
  by (simp add: bit_count_def StrCat_nat.simps ToRawDigits_def binary_digits_def
      separate_groups_def)

subsection \<open>Unary operators\<close>

lemma Unary_Emit_Inr:
  assumes "Emit arg = Inr a"
  shows "Emit (Unary op arg p) =
           Inr (op @ (if precedence arg < p \<or> IsUnary arg then ''('' @ a @ '')'' else a))"
  using assms by (simp add: ParenWrap_def)

lemma Unary_Emit_Inl: "Emit (Unary op arg p) = Inl f \<longleftrightarrow> Emit arg = Inl f"
  by (auto split: sum.splits intro: fatal_eq)

text \<open>
  C6.  A unary node whose operand emits the text \<open>a\<close> emits the operator followed by
  \<open>a\<close>, wrapped in parentheses exactly when the operand's precedence is strictly lower
  than the node's or the operand is itself a unary node.  In particular the negation of
  a negation emits \<open>-(\<dots>)\<close> around the inner negation, whatever the precedences: \<open>-(-x)\<close>,
  never \<open>--x\<close>.  The node aborts only when its operand does.
\<close>

theorem Unary_Emit_parenthesizes:
  "(\<forall>a. Emit arg = Inr a \<longrightarrow>
      Emit (Unary op arg p) =
        Inr (op @ (if precedence arg < p \<or> IsUnary arg then ''('' @ a @ '')'' else a)))
   \<and> (\<forall>inner. Emit (Unary ''-'' x q) = Inr inner \<longrightarrow>
        Emit (Unary ''-'' (Unary ''-'' x q) p) = Inr (''-('' @ inner @ '')''))
   \<and> (Emit (Unary op arg p) = Inl CheckFailure \<longleftrightarrow> Emit arg = Inl CheckFailure)"
proof (intro conjI allI impI)
  fix a assume "Emit arg = Inr a"
  then show "Emit (Unary op arg p) =
        Inr (op @ (if precedence arg < p \<or> IsUnary arg then ''('' @ a @ '')'' else a))"
    by (rule Unary_Emit_Inr)
next
  fix inner assume "Emit (Unary ''-'' x q) = Inr inner"
  from Unary_Emit_Inr [OF this, of "''-''" p]
  show "Emit (Unary ''-'' (Unary ''-'' x q) p) = Inr (''-('' @ inner @ '')'')"
    by simp
next
  show "Emit (Unary op arg p) = Inl CheckFailure \<longleftrightarrow> Emit arg = Inl CheckFailure"
    by (rule Unary_Emit_Inl)
qed

theorem Unary_Emit_parenthesizes_witness:
  "Emit (Unary ''-'' (Unary ''-'' (LogicRef (Def ''x'' kWire (DataType None False []))) 12) 12)
     = Inr ''-(-x)''
   \<and> Emit (Unary ''-'' (LogicRef (Def ''x'' kWire (DataType None False []))) 12) = Inr ''-x''
   \<and> Emit (Unary ''!'' (BinaryInfix (LogicRef (Def ''a'' kWire (DataType None False []))) ''+''
              (LogicRef (Def ''b'' kWire (DataType None False []))) 9) 12) = Inr ''!(a + b)''"
  using Unary_Emit_parenthesizes [where arg = "LogicRef (Def ''x'' kWire (DataType None False []))"
               and op = "''-''" and p = 12
               and x = "LogicRef (Def ''x'' kWire (DataType None False []))" and q = 12]
        Unary_Emit_parenthesizes [where arg = "BinaryInfix (LogicRef (Def ''a'' kWire (DataType None False []))) ''+''
                           (LogicRef (Def ''b'' kWire (DataType None False []))) 9"
               and op = "''!''" and p = 12
               and x = "LogicRef (Def ''x'' kWire (DataType None False []))" and q = 12]
  by (simp add: kMaxPrecedence_def ParenWrap_def)

subsection \<open>Indexing and slicing a scalar\<close>

lemma Bits_value_zero_last:
  assumes "Bits_value b = 0" and "b \<noteq> []"
  shows "\<not> last b"
  using assms by (induction b) (auto split: if_splits)

lemma Bits_signed_value_zero: "Bits_signed_value b = 0 \<longleftrightarrow> Bits_value b = 0"
proof
  assume "Bits_signed_value b = 0"
  moreover have "int (Bits_value b) < 2 ^ length b"
    using Bits_value_bound [of b] by (metis of_nat_less_iff of_nat_numeral of_nat_power)
  ultimately show "Bits_value b = 0"
    by (auto simp: Bits_signed_value_def split: if_splits)
next
  assume "Bits_value b = 0"
  then show "Bits_signed_value b = 0"
    using Bits_value_zero_last [of b] by (auto simp: Bits_signed_value_def)
qed

lemma IsLiteralWithValue_zero:
  "IsLiteralWithValue (Literal b f e) 0 \<longleftrightarrow> Bits_value b = 0"
  using Bits_signed_value_zero [of b]
  by (auto simp: ToInt64_def FitsInInt64_def)

lemma IsScalar_LogicRef:
  assumes "IsScalar subject"
  obtains d where "subject = LogicRef d" and "DataType_IsScalar (data_type d)"
  using assms by (cases subject) auto

lemma Slice_Emit_scalar:
  assumes "IsScalar subject"
  shows "Emit (Slice subject hi lo) =
           (if IsLiteralWithValue hi 0 \<and> IsLiteralWithValue lo 0 then Emit subject
            else Inl CheckFailure)"
  using assms by simp

lemma Index_Emit_scalar:
  assumes "IsScalar subject"
  shows "Emit (Index subject index) =
           (if IsLiteralWithValue index 0 then Emit subject else Inl CheckFailure)"
  using assms by simp

text \<open>
  C3.  Let the subject of an \<^verbatim>\<open>Index\<close> or a \<^verbatim>\<open>Slice\<close> be scalar (a reference to a
  declaration with no width).  If every bound is a literal of value 0, the node emits
  exactly what the subject emits, the bare name, with no brackets.  If a bound is a
  literal of another value, the emission fails its check and aborts, whatever the
  other bound is.
\<close>

theorem Scalar_Index_Slice_Emit:
  "IsScalar subject \<longrightarrow>
     (\<exists>d. subject = LogicRef d \<and> Emit subject = Inr (GetName d))
     \<and> (Bits_value bh = 0 \<and> Bits_value bl = 0 \<longrightarrow>
          Emit (Slice subject (Literal bh fh eh) (Literal bl fl el)) = Emit subject)
     \<and> (Bits_value bi = 0 \<longrightarrow> Emit (Index subject (Literal bi fi ei)) = Emit subject)
     \<and> (Bits_value bh \<noteq> 0 \<longrightarrow> Emit (Slice subject (Literal bh fh eh) lo) = Inl CheckFailure)
     \<and> (Bits_value bl \<noteq> 0 \<longrightarrow> Emit (Slice subject hi (Literal bl fl el)) = Inl CheckFailure)
     \<and> (Bits_value bi \<noteq> 0 \<longrightarrow> Emit (Index subject (Literal bi fi ei)) = Inl CheckFailure)"
proof
  assume scalar: "IsScalar subject"
  then obtain d where "subject = LogicRef d"
    by (rule IsScalar_LogicRef)
  then have "\<exists>d. subject = LogicRef d \<and> Emit subject = Inr (GetName d)"
    by simp
  moreover note Slice_Emit_scalar [OF scalar] Index_Emit_scalar [OF scalar]
    IsLiteralWithValue_zero
  ultimately show
    "(\<exists>d. subject = LogicRef d \<and> Emit subject = Inr (GetName d))
     \<and> (Bits_value bh = 0 \<and> Bits_value bl = 0 \<longrightarrow>
          Emit (Slice subject (Literal bh fh eh) (Literal bl fl el)) = Emit subject)
     \<and> (Bits_value bi = 0 \<longrightarrow> Emit (Index subject (Literal bi fi ei)) = Emit subject)
     \<and> (Bits_value bh \<noteq> 0 \<longrightarrow> Emit (Slice subject (Literal bh fh eh) lo) = Inl CheckFailure)
     \<and> (Bits_value bl \<noteq> 0 \<longrightarrow> Emit (Slice subject hi (Literal bl fl el)) = Inl CheckFailure)
     \<and> (Bits_value bi \<noteq> 0 \<longrightarrow> Emit (Index subject (Literal bi fi ei)) = Inl CheckFailure)"
    by (simp del: Emit.simps IsLiteralWithValue.simps)
qed

theorem Scalar_Index_Slice_Emit_witness:
  "Emit (Index (LogicRef (Def ''x'' kWire (DataType None False [])))
               (Literal [False, False] kDefault False)) = Inr ''x''
   \<and> Emit (Slice (LogicRef (Def ''x'' kWire (DataType None False [])))
               (Literal [False, False] kDefault False) (Literal [False] kHex True)) = Inr ''x''
   \<and> Emit (Index (LogicRef (Def ''x'' kWire (DataType None False [])))
               (Literal [True, False] kDefault False)) = Inl CheckFailure
   \<and> Emit (Slice (LogicRef (Def ''x'' kWire (DataType None False [])))
               (Literal [True, False] kDefault False) (Literal [False, False] kDefault False))
       = Inl CheckFailure
   \<and> Emit (Slice (LogicRef (Def ''x'' kWire (DataType None False [])))
               (Literal [False, False] kDefault False) (Literal [True, False] kDefault False))
       = Inl CheckFailure"
  using Scalar_Index_Slice_Emit [where subject = "LogicRef (Def ''x'' kWire (DataType None False []))"
              and bh = "[False, False]" and fh = kDefault and eh = False
              and bl = "[False]" and fl = kHex and el = True
              and bi = "[False, False]" and fi = kDefault and ei = False]
        Scalar_Index_Slice_Emit [where subject = "LogicRef (Def ''x'' kWire (DataType None False []))"
              and bh = "[True, False]" and fh = kDefault and eh = False
              and lo = "Literal [False, False] kDefault False"
              and hi = "Literal [False, False] kDefault False"
              and bl = "[True, False]" and fl = kDefault and el = False
              and bi = "[True, False]" and fi = kDefault and ei = False]
  by (simp add: DataType_IsScalar_def)

subsection \<open>The upper bound of a range\<close>

lemma WidthToLimit_Literal:
  assumes "Bits_value b < 2 ^ 64"
  shows "WidthToLimit (Literal b f e) =
           Inr (StrCat_nat (unat ((word_of_nat (Bits_value b) :: 64 word) - 1)))"
  using assms by (simp add: WidthToLimit_def ToUint64_def StrCat_uint64_def)

lemma unat_minus_one_of_nat:
  assumes "0 < n" and "n < 2 ^ 64"
  shows "unat ((word_of_nat n :: 64 word) - 1) = n - 1"
proof -
  have "unat (word_of_nat n :: 64 word) = n"
    using assms(2) by (simp add: unat_of_nat)
  moreover from this assms(1) have "(word_of_nat n :: 64 word) \<noteq> 0"
    by (metis less_numeral_extra(3) unat_0)
  ultimately show ?thesis
    by (simp add: unat_minus_one)
qed

lemma unat_uint64_max: "unat (- 1 :: 64 word) = 18446744073709551615"
  by (simp add: unsigned_minus_1_eq_mask mask_eq_exp_minus_1)

lemma StrCat_nat_uint64_max: "StrCat_nat 18446744073709551615 = ''18446744073709551615''"
  by (simp add: StrCat_nat.simps)

lemma StrCat_uint64_wrapped: "StrCat_nat (unat ((0 :: 64 word) - 1)) = ''18446744073709551615''"
  by (simp add: unat_uint64_max StrCat_nat_uint64_max)

text \<open>
  C10.  For a literal width or packed dimension whose value fits in 64 bits, the upper
  bound of the emitted range is the decimal numeral of the unsigned 64-bit value minus
  one, computed in \<^verbatim>\<open>uint64\<close> with no check that the value is positive: a positive value
  \<open>n\<close> gives \<open>n - 1\<close>, and the value 0 wraps around, so that the data type emits
  the range \<open>[18446744073709551615:0]\<close> and neither fails nor aborts.
\<close>

theorem WidthToLimit_literal_wraps:
  "(Bits_value b < 2 ^ 64 \<longrightarrow>
      WidthToLimit (Literal b f e) =
        Inr (StrCat_nat (unat ((word_of_nat (Bits_value b) :: 64 word) - 1))))
   \<and> (0 < Bits_value b \<and> Bits_value b < 2 ^ 64 \<longrightarrow>
        WidthToLimit (Literal b f e) = Inr (StrCat_nat (Bits_value b - 1)))
   \<and> (Bits_value b = 0 \<longrightarrow>
        WidthToLimit (Literal b f e) = Inr ''18446744073709551615''
        \<and> DataType_Emit (DataType (Some (Literal b f e)) sg []) =
            Inr ((if sg then '' signed'' else []) @ '' [18446744073709551615:0]'')
        \<and> DataType_Emit (DataType None sg [Literal b f e]) =
            Inr ((if sg then '' signed'' else []) @ ''[18446744073709551615:0]''))"
proof (intro conjI impI)
  assume "Bits_value b < 2 ^ 64"
  then show "WidthToLimit (Literal b f e) =
        Inr (StrCat_nat (unat ((word_of_nat (Bits_value b) :: 64 word) - 1)))"
    by (rule WidthToLimit_Literal)
next
  assume "0 < Bits_value b \<and> Bits_value b < 2 ^ 64"
  then show "WidthToLimit (Literal b f e) = Inr (StrCat_nat (Bits_value b - 1))"
    by (simp add: WidthToLimit_Literal unat_minus_one_of_nat)
next
  assume zero: "Bits_value b = 0"
  then show limit: "WidthToLimit (Literal b f e) = Inr ''18446744073709551615''"
    using WidthToLimit_Literal [of b f e] StrCat_uint64_wrapped by simp
  show "DataType_Emit (DataType (Some (Literal b f e)) sg []) =
            Inr ((if sg then '' signed'' else []) @ '' [18446744073709551615:0]'')"
    by (simp add: DataType_Emit_def WidthToRangeString_def limit)
  show "DataType_Emit (DataType None sg [Literal b f e]) =
            Inr ((if sg then '' signed'' else []) @ ''[18446744073709551615:0]'')"
    by (simp add: DataType_Emit_def WidthToRangeString_def limit)
qed

theorem WidthToLimit_literal_wraps_witness:
  "DataType_Emit (DataType (Some (Literal (replicate 32 False) kDefault False)) False []) =
     Inr '' [18446744073709551615:0]''
   \<and> WidthToLimit (Literal [False, False, False, True] kDefault False) = Inr ''7''"
proof -
  have z: "Bits_value (replicate 32 False) = 0"
    by (simp add: eval_nat_numeral)
  have "WidthToLimit (Literal [False, False, False, True] kDefault False) = Inr ''7''"
    using WidthToLimit_literal_wraps [of "[False, False, False, True]" kDefault False True]
    by (simp add: StrCat_nat.simps)
  moreover have "DataType_Emit (DataType (Some (Literal (replicate 32 False) kDefault False)) False []) =
     Inr '' [18446744073709551615:0]''"
    using z WidthToLimit_literal_wraps [of "replicate 32 False" kDefault False False] by simp
  ultimately show ?thesis
    by simp
qed

subsection \<open>The sensitivity list of a clocked-register block\<close>

lemma sensitivity_list_no_reset:
  assumes "rst af = None"
  shows "sensitivity_list af = Inr (''posedge '' @ GetName (clk af))"
  using assms by (simp add: sensitivity_list_def)

lemma sensitivity_list_synchronous:
  assumes "rst af = Some r" and "\<not> asynchronous r"
  shows "sensitivity_list af = Inr (''posedge '' @ GetName (clk af))"
  using assms by (simp add: sensitivity_list_def)

lemma sensitivity_list_asynchronous:
  assumes "rst af = Some r" and "asynchronous r"
  shows "sensitivity_list af =
           Inr (''posedge '' @ GetName (clk af) @ '' or '' @
                (if active_low r then ''negedge'' else ''posedge'') @ '' '' @ GetName (signal r))"
  using assms by (simp add: sensitivity_list_def)

lemma AlwaysFlop_Emit_Inr:
  assumes "sensitivity_list af = Inr sl" and "StatementBlock_Emit (top_block af) = Inr body"
  shows "AlwaysFlop_Emit af = Inr (''always @ ('' @ sl @ '') '' @ body)"
  using assms by (simp add: AlwaysFlop_Emit_def)

lemma AlwaysFlop_new_with_reset:
  "AlwaysFlop_new c (Some r) =
     Inr \<lparr> clk = c, rst = Some r,
           top_block = StatementBlock [ConditionalStatement
             (Conditional (if active_low r then Unary ''!'' (LogicRef (signal r)) 12
                           else LogicRef (signal r))
                          (StatementBlock []) [(None, StatementBlock [])])],
           reset_block = Some (ConsequentOf 0), assignment_block = AlternateOf 0 0 \<rparr>"
  by (simp add: AlwaysFlop_new_def Conditional_new_def AddAlternate_def StatementBlock_Add_def
      LogicalNot_def)

lemma AlwaysFlop_new_no_reset:
  "AlwaysFlop_new c None =
     Inr \<lparr> clk = c, rst = None, top_block = StatementBlock [],
           reset_block = None, assignment_block = TopBlock \<rparr>"
  by (simp add: AlwaysFlop_new_def)

text \<open>
  C4.  The sensitivity list of an \<^verbatim>\<open>AlwaysFlop\<close> is exactly \<open>posedge <clock>\<close> when there
  is no reset descriptor or the reset is synchronous.  With an asynchronous reset it is
  \<open>posedge <clock> or <edge> <reset-signal>\<close>, the edge being \<open>negedge\<close> exactly
  when the reset is active-low and \<open>posedge\<close> otherwise.  The list is always produced,
  and the block is emitted as \<open>always @ (<list>) <top block>\<close>.
\<close>

theorem AlwaysFlop_Emit_sensitivity_list:
  "((rst af = None \<or> (\<exists>r. rst af = Some r \<and> \<not> asynchronous r)) \<longrightarrow>
      sensitivity_list af = Inr (''posedge '' @ GetName (clk af)))
   \<and> (\<forall>r. rst af = Some r \<and> asynchronous r \<longrightarrow>
        sensitivity_list af =
          Inr (''posedge '' @ GetName (clk af) @ '' or '' @
               (if active_low r then ''negedge'' else ''posedge'') @ '' '' @ GetName (signal r)))
   \<and> (\<exists>sl. sensitivity_list af = Inr sl \<and>
          (\<forall>body. StatementBlock_Emit (top_block af) = Inr body \<longrightarrow>
             AlwaysFlop_Emit af = Inr (''always @ ('' @ sl @ '') '' @ body)))"
proof (intro conjI allI impI)
  assume "rst af = None \<or> (\<exists>r. rst af = Some r \<and> \<not> asynchronous r)"
  then show "sensitivity_list af = Inr (''posedge '' @ GetName (clk af))"
    using sensitivity_list_no_reset sensitivity_list_synchronous by blast
next
  fix r assume "rst af = Some r \<and> asynchronous r"
  then show "sensitivity_list af =
          Inr (''posedge '' @ GetName (clk af) @ '' or '' @
               (if active_low r then ''negedge'' else ''posedge'') @ '' '' @ GetName (signal r))"
    using sensitivity_list_asynchronous by blast
next
  have "\<exists>sl. sensitivity_list af = Inr sl"
    by (simp add: sensitivity_list_def split: option.split)
  then obtain sl where "sensitivity_list af = Inr sl" ..
  then show "\<exists>sl. sensitivity_list af = Inr sl \<and>
          (\<forall>body. StatementBlock_Emit (top_block af) = Inr body \<longrightarrow>
             AlwaysFlop_Emit af = Inr (''always @ ('' @ sl @ '') '' @ body))"
    using AlwaysFlop_Emit_Inr by blast
qed

theorem AlwaysFlop_Emit_sensitivity_list_witness:
  "sensitivity_list
     \<lparr> clk = Def ''clk'' kWire (DataType None False []),
       rst = Some \<lparr> signal = Def ''rst_n'' kWire (DataType None False []),
                    asynchronous = True, active_low = True \<rparr>,
       top_block = StatementBlock [ConditionalStatement
         (Conditional (Unary ''!'' (LogicRef (Def ''rst_n'' kWire (DataType None False []))) 12)
                      (StatementBlock []) [(None, StatementBlock [])])],
       reset_block = Some (ConsequentOf 0), assignment_block = AlternateOf 0 0 \<rparr>
     = Inr ''posedge clk or negedge rst_n''
   \<and> sensitivity_list
     \<lparr> clk = Def ''clk'' kWire (DataType None False []),
       rst = Some \<lparr> signal = Def ''rst_n'' kWire (DataType None False []),
                    asynchronous = False, active_low = True \<rparr>,
       top_block = StatementBlock [ConditionalStatement
         (Conditional (Unary ''!'' (LogicRef (Def ''rst_n'' kWire (DataType None False []))) 12)
                      (StatementBlock []) [(None, StatementBlock [])])],
       reset_block = Some (ConsequentOf 0), assignment_block = AlternateOf 0 0 \<rparr>
     = Inr ''posedge clk''
   \<and> AlwaysFlop_Emit
     \<lparr> clk = Def ''clk'' kWire (DataType None False []),
       rst = Some \<lparr> signal = Def ''rst_n'' kWire (DataType None False []),
                    asynchronous = True, active_low = True \<rparr>,
       top_block = StatementBlock [ConditionalStatement
         (Conditional (Unary ''!'' (LogicRef (Def ''rst_n'' kWire (DataType None False []))) 12)
                      (StatementBlock []) [(None, StatementBlock [])])],
       reset_block = Some (ConsequentOf 0), assignment_block = AlternateOf 0 0 \<rparr>
     = Inr (''always @ (posedge clk or negedge rst_n) begin'' @ [CHR 0x0A] @
            ''  if (!rst_n) begin end else begin end'' @ [CHR 0x0A] @ ''end'')"
  using AlwaysFlop_Emit_sensitivity_list [of "\<lparr> clk = Def ''clk'' kWire (DataType None False []),
       rst = Some \<lparr> signal = Def ''rst_n'' kWire (DataType None False []),
                    asynchronous = True, active_low = True \<rparr>,
       top_block = StatementBlock [ConditionalStatement
         (Conditional (Unary ''!'' (LogicRef (Def ''rst_n'' kWire (DataType None False []))) 12)
                      (StatementBlock []) [(None, StatementBlock [])])],
       reset_block = Some (ConsequentOf 0), assignment_block = AlternateOf 0 0 \<rparr>"]
     AlwaysFlop_Emit_sensitivity_list [of "\<lparr> clk = Def ''clk'' kWire (DataType None False []),
       rst = Some \<lparr> signal = Def ''rst_n'' kWire (DataType None False []),
                    asynchronous = False, active_low = True \<rparr>,
       top_block = StatementBlock [ConditionalStatement
         (Conditional (Unary ''!'' (LogicRef (Def ''rst_n'' kWire (DataType None False []))) 12)
                      (StatementBlock []) [(None, StatementBlock [])])],
       reset_block = Some (ConsequentOf 0), assignment_block = AlternateOf 0 0 \<rparr>"]
  by (simp add: sensitivity_list_def AlwaysFlop_Emit_def Indent_def kMaxPrecedence_def)

subsection \<open>Adding registers to a clocked-register block\<close>

lemma with_reset_shape_top_block:
  assumes "with_reset_shape af"
  obtains c rb ab where
    "top_block af = StatementBlock [ConditionalStatement (Conditional c rb [(None, ab)])]"
proof -
  from assms have "is_reset_conditional (statements (top_block af))"
    by (simp add: with_reset_shape_def)
  then obtain c rb ab where
    "statements (top_block af) = [ConditionalStatement (Conditional c rb [(None, ab)])]"
    by (rule is_reset_conditional.elims(2))
  then have "top_block af = StatementBlock [ConditionalStatement (Conditional c rb [(None, ab)])]"
    by (cases "top_block af") simp
  then show thesis
    by (rule that)
qed

lemma with_reset_shape_blocks:
  assumes "with_reset_shape af"
    and "top_block af = StatementBlock [ConditionalStatement (Conditional c rb [(None, ab)])]"
  shows "reset_block_of af = Some rb" and "assignment_block_of af = Some ab"
  using assms by (simp_all add: with_reset_shape_def reset_block_of_def assignment_block_of_def)

lemma AddRegister_with_reset_shape:
  assumes "with_reset_shape af"
    and "top_block af = StatementBlock [ConditionalStatement (Conditional c rb [(None, ab)])]"
  shows "AddRegister reg nxt reset_value af =
           Inr (af\<lparr> top_block := StatementBlock [ConditionalStatement
                  (Conditional c
                     (case reset_value of None \<Rightarrow> rb
                      | Some rv \<Rightarrow>
                          StatementBlock (statements rb @ [NonblockingAssignment (LogicRef reg) rv]))
                     [(None, StatementBlock
                               (statements ab @ [NonblockingAssignment (LogicRef reg) nxt]))])] \<rparr>)"
  using assms
  by (cases reset_value) (simp_all add: with_reset_shape_def AddRegister_def StatementBlock_Add_def)

lemma AddRegister_keeps_with_reset_shape:
  assumes "with_reset_shape af" and "AddRegister reg nxt reset_value af = Inr af'"
  shows "with_reset_shape af'"
proof -
  from assms(1) obtain c rb ab where
    tb: "top_block af = StatementBlock [ConditionalStatement (Conditional c rb [(None, ab)])]"
    by (rule with_reset_shape_top_block)
  from AddRegister_with_reset_shape [OF assms(1) tb, of reg nxt reset_value] assms
  show ?thesis
    by (auto simp: with_reset_shape_def)
qed

lemma AddRegisters_keeps_with_reset_shape:
  assumes "with_reset_shape af" and "AddRegisters regs af = Inr af'"
  shows "with_reset_shape af'"
  using assms
proof (induction regs arbitrary: af)
  case Nil
  then show ?case by simp
next
  case (Cons r regs)
  then show ?case
    by (auto split: sum.splits dest: AddRegister_keeps_with_reset_shape)
qed

lemma AddRegisters_with_reset_returns:
  assumes "with_reset_shape af"
  shows "\<exists>af'. AddRegisters regs af = Inr af'"
  using assms
proof (induction regs arbitrary: af)
  case Nil
  then show ?case by simp
next
  case (Cons r regs)
  from Cons.prems obtain c rb ab where
    tb: "top_block af = StatementBlock [ConditionalStatement (Conditional c rb [(None, ab)])]"
    by (rule with_reset_shape_top_block)
  from AddRegister_with_reset_shape [OF Cons.prems tb, of "fst r" "fst (snd r)" "snd (snd r)"]
  obtain af1 where step: "AddRegister (fst r) (fst (snd r)) (snd (snd r)) af = Inr af1"
    by blast
  with Cons.prems have "with_reset_shape af1"
    by (rule AddRegister_keeps_with_reset_shape)
  with Cons.IH obtain af' where "AddRegisters regs af1 = Inr af'"
    by blast
  with step show ?case by simp
qed

lemma AddRegister_keeps_without_reset_shape:
  assumes "without_reset_shape af" and "AddRegister reg nxt reset_value af = Inr af'"
  shows "without_reset_shape af'"
  using assms
  by (cases reset_value) (auto simp: without_reset_shape_def AddRegister_def)

lemma AddRegisters_keeps_without_reset_shape:
  assumes "without_reset_shape af" and "AddRegisters regs af = Inr af'"
  shows "without_reset_shape af'"
  using assms
proof (induction regs arbitrary: af)
  case Nil
  then show ?case by simp
next
  case (Cons r regs)
  then show ?case
    by (auto split: sum.splits dest: AddRegister_keeps_without_reset_shape)
qed

lemma AlwaysFlop_new_with_reset_shape:
  assumes "AlwaysFlop_new c (Some r) = Inr af"
  shows "with_reset_shape af"
  using assms by (auto simp: AlwaysFlop_new_with_reset with_reset_shape_def)

lemma AlwaysFlop_new_without_reset_shape:
  assumes "AlwaysFlop_new c None = Inr af"
  shows "without_reset_shape af"
  using assms by (auto simp: AlwaysFlop_new_no_reset without_reset_shape_def)

lemma AlwaysFlop_new_returns: "\<exists>af. AlwaysFlop_new c ro = Inr af"
  by (cases ro) (simp_all add: AlwaysFlop_new_with_reset AlwaysFlop_new_no_reset)

lemma AddRegister_with_reset_effect:
  assumes "with_reset_shape af"
  shows "\<exists>rb ab. reset_block_of af = Some rb \<and> assignment_block_of af = Some ab \<and>
           (\<exists>af'. AddRegister reg nxt (Some rv) af = Inr af' \<and>
              reset_block_of af' =
                Some (StatementBlock (statements rb @ [NonblockingAssignment (LogicRef reg) rv])) \<and>
              assignment_block_of af' =
                Some (StatementBlock (statements ab @ [NonblockingAssignment (LogicRef reg) nxt]))) \<and>
           (\<exists>af'. AddRegister reg nxt None af = Inr af' \<and>
              reset_block_of af' = Some rb \<and>
              assignment_block_of af' =
                Some (StatementBlock (statements ab @ [NonblockingAssignment (LogicRef reg) nxt])))"
proof -
  from assms obtain c rb ab where
    tb: "top_block af = StatementBlock [ConditionalStatement (Conditional c rb [(None, ab)])]"
    by (rule with_reset_shape_top_block)
  have ptrs: "reset_block af = Some (ConsequentOf 0)" "assignment_block af = AlternateOf 0 0"
    using assms by (simp_all add: with_reset_shape_def)
  have "reset_block_of af = Some rb" and "assignment_block_of af = Some ab"
    using with_reset_shape_blocks [OF assms tb] by simp_all
  moreover have "\<exists>af'. AddRegister reg nxt (Some rv) af = Inr af' \<and>
              reset_block_of af' =
                Some (StatementBlock (statements rb @ [NonblockingAssignment (LogicRef reg) rv])) \<and>
              assignment_block_of af' =
                Some (StatementBlock (statements ab @ [NonblockingAssignment (LogicRef reg) nxt]))"
    using AddRegister_with_reset_shape [OF assms tb, of reg nxt "Some rv"] ptrs
    by (simp add: reset_block_of_def assignment_block_of_def)
  moreover have "\<exists>af'. AddRegister reg nxt None af = Inr af' \<and>
              reset_block_of af' = Some rb \<and>
              assignment_block_of af' =
                Some (StatementBlock (statements ab @ [NonblockingAssignment (LogicRef reg) nxt]))"
    using AddRegister_with_reset_shape [OF assms tb, of reg nxt None] ptrs
    by (simp add: reset_block_of_def assignment_block_of_def)
  ultimately show ?thesis by blast
qed

lemma AddRegister_without_reset_effect:
  assumes "without_reset_shape af"
  shows "AddRegister reg nxt (Some rv) af = Inl CheckFailure"
    and "AddRegister reg nxt None af =
           Inr (af\<lparr> top_block :=
                  StatementBlock (statements (top_block af) @
                                  [NonblockingAssignment (LogicRef reg) nxt]) \<rparr>)"
  using assms by (simp_all add: without_reset_shape_def AddRegister_def StatementBlock_Add_def)

text \<open>
  C5.  Take an \<^verbatim>\<open>AlwaysFlop\<close> built with a reset descriptor, after any sequence of
  \<^verbatim>\<open>AddRegister\<close> calls.  \<^verbatim>\<open>AddRegister\<close> with a reset value appends the non-blocking
  assignment of the reset value to the reset block and the non-blocking assignment of the
  next value to the assignment block; with a null reset value it appends only to the
  assignment block and leaves the reset block as it is.  On an \<^verbatim>\<open>AlwaysFlop\<close> built
  without a reset descriptor, \<^verbatim>\<open>AddRegister\<close> with a reset value fails its check and
  aborts, and with a null reset value it appends the assignment to the top block.  The
  constructor always returns, and with a reset no \<^verbatim>\<open>AddRegister\<close> call aborts.
\<close>

theorem AddRegister_blocks:
  "(\<forall>af0 af. AlwaysFlop_new c (Some r) = Inr af0 \<and> AddRegisters regs af0 = Inr af \<longrightarrow>
      (\<exists>rb ab. reset_block_of af = Some rb \<and> assignment_block_of af = Some ab \<and>
         (\<exists>af'. AddRegister reg nxt (Some rv) af = Inr af' \<and>
            reset_block_of af' =
              Some (StatementBlock (statements rb @ [NonblockingAssignment (LogicRef reg) rv])) \<and>
            assignment_block_of af' =
              Some (StatementBlock (statements ab @ [NonblockingAssignment (LogicRef reg) nxt]))) \<and>
         (\<exists>af'. AddRegister reg nxt None af = Inr af' \<and>
            reset_block_of af' = Some rb \<and>
            assignment_block_of af' =
              Some (StatementBlock (statements ab @ [NonblockingAssignment (LogicRef reg) nxt])))))
   \<and> (\<forall>af0 af. AlwaysFlop_new c None = Inr af0 \<and> AddRegisters regs af0 = Inr af \<longrightarrow>
        AddRegister reg nxt (Some rv) af = Inl CheckFailure \<and>
        AddRegister reg nxt None af =
          Inr (af\<lparr> top_block :=
                 StatementBlock (statements (top_block af) @
                                 [NonblockingAssignment (LogicRef reg) nxt]) \<rparr>))
   \<and> (\<exists>af0. AlwaysFlop_new c ro = Inr af0)
   \<and> (\<forall>af0. AlwaysFlop_new c (Some r) = Inr af0 \<longrightarrow> (\<exists>af. AddRegisters regs af0 = Inr af))"
proof (intro conjI allI impI)
  fix af0 af
  assume "AlwaysFlop_new c (Some r) = Inr af0 \<and> AddRegisters regs af0 = Inr af"
  then have "with_reset_shape af"
    using AlwaysFlop_new_with_reset_shape AddRegisters_keeps_with_reset_shape by blast
  then show "\<exists>rb ab. reset_block_of af = Some rb \<and> assignment_block_of af = Some ab \<and>
         (\<exists>af'. AddRegister reg nxt (Some rv) af = Inr af' \<and>
            reset_block_of af' =
              Some (StatementBlock (statements rb @ [NonblockingAssignment (LogicRef reg) rv])) \<and>
            assignment_block_of af' =
              Some (StatementBlock (statements ab @ [NonblockingAssignment (LogicRef reg) nxt]))) \<and>
         (\<exists>af'. AddRegister reg nxt None af = Inr af' \<and>
            reset_block_of af' = Some rb \<and>
            assignment_block_of af' =
              Some (StatementBlock (statements ab @ [NonblockingAssignment (LogicRef reg) nxt])))"
    by (rule AddRegister_with_reset_effect)
next
  fix af0 af
  assume "AlwaysFlop_new c None = Inr af0 \<and> AddRegisters regs af0 = Inr af"
  then have shape: "without_reset_shape af"
    using AlwaysFlop_new_without_reset_shape AddRegisters_keeps_without_reset_shape by blast
  from AddRegister_without_reset_effect [OF shape]
  show "AddRegister reg nxt (Some rv) af = Inl CheckFailure"
    and "AddRegister reg nxt None af =
          Inr (af\<lparr> top_block :=
                 StatementBlock (statements (top_block af) @
                                 [NonblockingAssignment (LogicRef reg) nxt]) \<rparr>)"
    by simp_all
next
  show "\<exists>af0. AlwaysFlop_new c ro = Inr af0"
    by (rule AlwaysFlop_new_returns)
next
  fix af0 assume "AlwaysFlop_new c (Some r) = Inr af0"
  then have "with_reset_shape af0"
    by (rule AlwaysFlop_new_with_reset_shape)
  then show "\<exists>af. AddRegisters regs af0 = Inr af"
    by (rule AddRegisters_with_reset_returns)
qed

theorem AddRegister_blocks_witness:
  "(case AlwaysFlop_new (Def ''clk'' kWire (DataType None False []))
          (Some \<lparr> signal = Def ''rst'' kWire (DataType None False []),
                  asynchronous = False, active_low = False \<rparr>) of
      Inl f \<Rightarrow> False
    | Inr af0 \<Rightarrow>
        (case AddRegisters [(Def ''p'' kReg (DataType None False []),
                             LogicRef (Def ''p_next'' kWire (DataType None False [])), None)] af0 of
           Inl f \<Rightarrow> False
         | Inr af \<Rightarrow>
        (case AddRegister (Def ''q'' kReg (DataType None False []))
                (LogicRef (Def ''q_next'' kWire (DataType None False [])))
                (Some (Literal [False] kBinary True)) af of
           Inl f \<Rightarrow> False
         | Inr af1 \<Rightarrow>
             reset_block_of af = Some (StatementBlock [])
             \<and> reset_block_of af1 =
                 Some (StatementBlock
                   [NonblockingAssignment (LogicRef (Def ''q'' kReg (DataType None False [])))
                      (Literal [False] kBinary True)])
             \<and> assignment_block_of af1 =
                 Some (StatementBlock
                   [NonblockingAssignment (LogicRef (Def ''p'' kReg (DataType None False [])))
                      (LogicRef (Def ''p_next'' kWire (DataType None False []))),
                    NonblockingAssignment (LogicRef (Def ''q'' kReg (DataType None False [])))
                      (LogicRef (Def ''q_next'' kWire (DataType None False [])))])
             \<and> AlwaysFlop_Emit af1 =
                 Inr (''always @ (posedge clk) begin'' @ [CHR 0x0A] @
                      ''  if (rst) begin'' @ [CHR 0x0A] @
                      ''    q <= 1'' @ [CHR 0x27] @ ''b0;'' @ [CHR 0x0A] @
                      ''  end else begin'' @ [CHR 0x0A] @
                      ''    p <= p_next;'' @ [CHR 0x0A] @
                      ''    q <= q_next;'' @ [CHR 0x0A] @
                      ''  end'' @ [CHR 0x0A] @
                      ''end''))))
   \<and> (case AlwaysFlop_new (Def ''clk'' kWire (DataType None False [])) None of
         Inl f \<Rightarrow> False
       | Inr af0 \<Rightarrow>
           AddRegister (Def ''q'' kReg (DataType None False []))
             (LogicRef (Def ''q_next'' kWire (DataType None False [])))
             (Some (Literal [False] kBinary True)) af0 = Inl CheckFailure)"
  using AddRegister_blocks [where c = "Def ''clk'' kWire (DataType None False [])"
              and r = "\<lparr> signal = Def ''rst'' kWire (DataType None False []),
                           asynchronous = False, active_low = False \<rparr>"
              and regs = "[(Def ''p'' kReg (DataType None False []),
                            LogicRef (Def ''p_next'' kWire (DataType None False [])), None)]"
              and reg = "Def ''q'' kReg (DataType None False [])"
              and nxt = "LogicRef (Def ''q_next'' kWire (DataType None False []))"
              and rv = "Literal [False] kBinary True"
              and ro = None]
  by (simp add: AlwaysFlop_new_def Conditional_new_def AddAlternate_def StatementBlock_Add_def
      AddRegister_def reset_block_of_def assignment_block_of_def AlwaysFlop_Emit_def
      sensitivity_list_def Indent_def Literal_Emit_def ToRawDigits_def binary_digits_def
      separate_groups_def
      bit_count_def StrCat_nat.simps)

subsection \<open>The alternates of a conditional\<close>

lemma map_fst_update_same:
  assumes "j < length xs"
  shows "map fst (xs[j := (fst (xs ! j), y)]) = map fst xs"
  using assms by (simp add: map_update list_update_same_conv)

lemma fst_last_map: "xs \<noteq> [] \<Longrightarrow> fst (last xs) = last (map fst xs)"
  by (simp add: last_map)

lemma AddAlternate_closed:
  assumes "closed_with_else c"
  shows "AddAlternate cond c = Inl CheckFailure"
  using assms by (simp add: closed_with_else_def AddAlternate_def)

lemma AddAlternate_None_closes:
  assumes "AddAlternate None c = Inr c'"
  shows "closed_with_else c'"
  using assms by (auto simp: closed_with_else_def AddAlternate_def split: if_splits)

lemma Conditional_call_keeps_closed:
  assumes "closed_with_else c" and "Conditional_call call c = Inr c'"
  shows "closed_with_else c'"
proof (cases call)
  case (CallAddAlternate cond)
  with assms show ?thesis
    by (simp add: AddAlternate_closed)
next
  case (CallAddToConsequent s)
  with assms show ?thesis
    by (auto simp: closed_with_else_def)
next
  case (CallAddToAlternate j s)
  show ?thesis
  proof (cases "j < length (alternates c)")
    case True
    let ?xs = "(alternates c)[j := (fst (alternates c ! j),
                                    StatementBlock_Add s (snd (alternates c ! j)))]"
    from True assms CallAddToAlternate have alts: "alternates c' = ?xs"
      by auto
    have "map fst ?xs = map fst (alternates c)"
      using True by (rule map_fst_update_same)
    moreover from assms(1) have "alternates c \<noteq> []" and "last (map fst (alternates c)) = None"
      by (simp_all add: closed_with_else_def last_map)
    moreover from \<open>alternates c \<noteq> []\<close> have "?xs \<noteq> []"
      by simp
    ultimately have "?xs \<noteq> [] \<and> fst (last ?xs) = None"
      by (metis fst_last_map)
    with alts show ?thesis
      by (simp add: closed_with_else_def)
  next
    case False
    with assms CallAddToAlternate show ?thesis
      by auto
  qed
qed

lemma Conditional_calls_keep_closed:
  assumes "closed_with_else c" and "Conditional_calls calls c = Inr c'"
  shows "closed_with_else c'"
  using assms
proof (induction calls arbitrary: c)
  case Nil
  then show ?case by simp
next
  case (Cons call calls)
  then show ?case
    by (auto split: sum.splits dest: Conditional_call_keeps_closed)
qed

lemma Conditional_calls_append:
  "Conditional_calls (xs @ ys) c =
     (case Conditional_calls xs c of Inl f \<Rightarrow> Inl f | Inr c' \<Rightarrow> Conditional_calls ys c')"
  by (induction xs arbitrary: c) (auto split: sum.splits)

lemma AddAlternate_after_else_aborts:
  assumes "closed_with_else c"
  shows "Conditional_calls (calls1 @ CallAddAlternate cond # calls2) c = Inl CheckFailure"
proof (cases "Conditional_calls calls1 c")
  case (Inl f)
  then show ?thesis
    by (simp add: Conditional_calls_append fatal_eq [of f CheckFailure])
next
  case (Inr c1)
  with assms have "closed_with_else c1"
    by (rule Conditional_calls_keep_closed)
  then have "AddAlternate cond c1 = Inl CheckFailure"
    by (rule AddAlternate_closed)
  with Inr show ?thesis
    by (simp add: Conditional_calls_append)
qed

lemma else_is_last_new: "else_is_last (Conditional_new test)"
  by (simp add: else_is_last_def Conditional_new_def)

lemma AddAlternate_keeps_else_is_last:
  assumes "else_is_last c" and "AddAlternate cond c = Inr c'"
  shows "else_is_last c'"
proof (cases "alternates c = []")
  case True
  with assms(2) show ?thesis
    by (auto simp: else_is_last_def AddAlternate_def)
next
  case False
  with assms(2) have last: "fst (last (alternates c)) \<noteq> None"
    and alts: "alternates c' = alternates c @ [(cond, StatementBlock [])]"
    by (auto simp: AddAlternate_def split: if_splits)
  from False have "alternates c = butlast (alternates c) @ [last (alternates c)]"
    by simp
  then have "set (alternates c) = set (butlast (alternates c)) \<union> {last (alternates c)}"
    by (metis list.simps(15) set_append empty_set)
  then have "list_all (\<lambda>a. fst a \<noteq> None) (alternates c) \<longleftrightarrow>
      list_all (\<lambda>a. fst a \<noteq> None) (butlast (alternates c)) \<and> fst (last (alternates c)) \<noteq> None"
    by (auto simp: list_all_iff)
  with assms(1) last have "list_all (\<lambda>a. fst a \<noteq> None) (alternates c)"
    by (simp add: else_is_last_def)
  with alts show ?thesis
    by (simp add: else_is_last_def)
qed

lemma else_is_last_map_fst:
  "else_is_last c \<longleftrightarrow> list_all (\<lambda>x. x \<noteq> None) (butlast (map fst (alternates c)))"
  by (simp add: else_is_last_def map_butlast [symmetric] list_all_iff)

lemma Conditional_call_keeps_else_is_last:
  assumes "else_is_last c" and "Conditional_call call c = Inr c'"
  shows "else_is_last c'"
proof (cases call)
  case (CallAddAlternate cond)
  with assms show ?thesis
    by (auto dest: AddAlternate_keeps_else_is_last)
next
  case (CallAddToConsequent s)
  with assms show ?thesis
    by (auto simp: else_is_last_def)
next
  case (CallAddToAlternate j s)
  with assms show ?thesis
    by (auto simp: else_is_last_map_fst map_fst_update_same split: if_splits)
qed

lemma Conditional_calls_keep_else_is_last:
  assumes "else_is_last c" and "Conditional_calls calls c = Inr c'"
  shows "else_is_last c'"
  using assms
proof (induction calls arbitrary: c)
  case Nil
  then show ?case by simp
next
  case (Cons call calls)
  then show ?case
    by (auto split: sum.splits dest: Conditional_call_keeps_else_is_last)
qed

lemma else_is_last_nth:
  assumes "else_is_last c" and "i < length (alternates c)" and "fst (alternates c ! i) = None"
  shows "Suc i = length (alternates c)"
proof (rule ccontr)
  assume "Suc i \<noteq> length (alternates c)"
  with assms(2) have i: "i < length (butlast (alternates c))"
    by simp
  then have "butlast (alternates c) ! i = alternates c ! i"
    by (simp add: nth_butlast)
  moreover from assms(1) i have "fst (butlast (alternates c) ! i) \<noteq> None"
    by (simp add: else_is_last_def list_all_length)
  ultimately show False
    using assms(3) by simp
qed

text \<open>
  C8.  Once an unconditional alternate has been added to a conditional, a further
  \<^verbatim>\<open>AddAlternate\<close> fails its check and aborts, at once or after any other calls on the
  conditional.  Hence in every conditional a client can build from the constructor, and
  so in every one that is ever emitted, an alternate without a condition is the last
  alternate of the chain.
\<close>

theorem AddAlternate_else_is_last:
  "(\<forall>c'. AddAlternate None c = Inr c' \<longrightarrow>
      AddAlternate cond c' = Inl CheckFailure
      \<and> (\<forall>calls1 calls2.
           Conditional_calls (calls1 @ CallAddAlternate cond # calls2) c' = Inl CheckFailure))
   \<and> (\<forall>c'. Conditional_calls calls (Conditional_new test) = Inr c' \<longrightarrow>
        else_is_last c'
        \<and> (\<forall>i < length (alternates c'). fst (alternates c' ! i) = None \<longrightarrow>
              Suc i = length (alternates c')))"
proof (intro conjI allI impI)
  fix c' assume "AddAlternate None c = Inr c'"
  then have closed: "closed_with_else c'"
    by (rule AddAlternate_None_closes)
  then show "AddAlternate cond c' = Inl CheckFailure"
    by (rule AddAlternate_closed)
  fix calls1 calls2
  from closed show "Conditional_calls (calls1 @ CallAddAlternate cond # calls2) c' = Inl CheckFailure"
    by (rule AddAlternate_after_else_aborts)
next
  fix c' assume "Conditional_calls calls (Conditional_new test) = Inr c'"
  with else_is_last_new show last: "else_is_last c'"
    by (rule Conditional_calls_keep_else_is_last)
  fix i assume "i < length (alternates c')" and "fst (alternates c' ! i) = None"
  with last show "Suc i = length (alternates c')"
    by (rule else_is_last_nth)
qed

theorem AddAlternate_else_is_last_witness:
  "(case AddAlternate None (Conditional_new (LogicRef (Def ''a'' kWire (DataType None False [])))) of
      Inl f \<Rightarrow> False
    | Inr c' \<Rightarrow>
        AddAlternate (Some (LogicRef (Def ''b'' kWire (DataType None False [])))) c'
          = Inl CheckFailure)
   \<and> (case Conditional_calls
              [CallAddAlternate (Some (LogicRef (Def ''b'' kWire (DataType None False [])))),
               CallAddToAlternate 0
                 (BlockingAssignment (LogicRef (Def ''x'' kReg (DataType None False [])))
                                     (LogicRef (Def ''y'' kWire (DataType None False [])))),
               CallAddAlternate None]
              (Conditional_new (LogicRef (Def ''a'' kWire (DataType None False [])))) of
         Inl f \<Rightarrow> False
       | Inr c' \<Rightarrow>
           map fst (alternates c') =
             [Some (LogicRef (Def ''b'' kWire (DataType None False []))), None]
           \<and> else_is_last c'
           \<and> Conditional_Emit c' =
               Inr (''if (a) begin end else if (b) begin'' @ [CHR 0x0A] @
                    ''  x = y;'' @ [CHR 0x0A] @ ''end else begin end''))
   \<and> Conditional_calls
         [CallAddAlternate None,
          CallAddToAlternate 0
            (BlockingAssignment (LogicRef (Def ''x'' kReg (DataType None False [])))
                                (LogicRef (Def ''y'' kWire (DataType None False [])))),
          CallAddAlternate (Some (LogicRef (Def ''b'' kWire (DataType None False []))))]
         (Conditional_new (LogicRef (Def ''a'' kWire (DataType None False [])))) = Inl CheckFailure"
  using AddAlternate_else_is_last [where c = "Conditional_new (LogicRef (Def ''a'' kWire (DataType None False [])))"
              and cond = "Some (LogicRef (Def ''b'' kWire (DataType None False [])))"
              and test = "LogicRef (Def ''a'' kWire (DataType None False []))"
              and calls =
                "[CallAddAlternate (Some (LogicRef (Def ''b'' kWire (DataType None False [])))),
                  CallAddToAlternate 0
                    (BlockingAssignment (LogicRef (Def ''x'' kReg (DataType None False [])))
                                        (LogicRef (Def ''y'' kWire (DataType None False [])))),
                  CallAddAlternate None]"]
  by (simp add: AddAlternate_def Conditional_new_def StatementBlock_Add_def else_is_last_def
      Indent_def)

subsection \<open>Flat bit counts and port descriptors\<close>

lemma IsLiteral_cases:
  assumes "IsLiteral d"
  obtains b f e where "d = Literal b f e"
  using assms by (cases d) auto

lemma FlatBitCount_dims_literals:
  assumes "\<forall>d\<in>set dims. IsLiteral d \<and> literal_value d < 2 ^ 64"
  shows "FlatBitCount_dims bc dims =
           Inr (Inr (bc * word_of_nat (prod_list (map literal_value dims))))"
  using assms
proof (induction dims arbitrary: bc)
  case Nil
  then show ?case by simp
next
  case (Cons d dims)
  then have "IsLiteral d" and fits: "literal_value d < 2 ^ 64"
    by simp_all
  then obtain b f e where d: "d = Literal b f e"
    by (auto elim: IsLiteral_cases)
  from Cons have "FlatBitCount_dims (bc * word_of_nat (literal_value d)) dims =
      Inr (Inr (bc * word_of_nat (literal_value d) *
                word_of_nat (prod_list (map literal_value dims))))"
    by simp
  with d fits show ?case
    by (simp add: ToUint64_def mult.assoc)
qed

lemma FlatBitCount_dims_no_abort:
  assumes "\<forall>d\<in>set dims. \<not> IsLiteral d \<longrightarrow> Emit d \<noteq> Inl CheckFailure"
  shows "FlatBitCount_dims bc dims \<noteq> Inl CheckFailure"
  using assms
proof (induction dims arbitrary: bc)
  case Nil
  then show ?case by simp
next
  case (Cons d dims)
  show ?case
  proof (cases "IsLiteral d")
    case True
    then obtain b f e where "d = Literal b f e"
      by (rule IsLiteral_cases)
    with Cons show ?thesis
      by (simp add: ToUint64_def)
  next
    case False
    with Cons.prems obtain s where "Emit d = Inr s"
      by (cases "Emit d") (auto intro: fatal_eq)
    with False show ?thesis
      by simp
  qed
qed

lemma FlatBitCount_dims_nonliteral:
  assumes "\<exists>d\<in>set dims. \<not> IsLiteral d"
    and "\<forall>d\<in>set dims. if IsLiteral d then literal_value d < 2 ^ 64
                         else Emit d \<noteq> Inl CheckFailure"
  shows "\<exists>msg. FlatBitCount_dims bc dims = Inr (Inl (FailedPreconditionError msg))"
  using assms
proof (induction dims arbitrary: bc)
  case Nil
  then show ?case by simp
next
  case (Cons d dims)
  show ?case
  proof (cases "IsLiteral d")
    case True
    then obtain b f e where d: "d = Literal b f e"
      by (rule IsLiteral_cases)
    with Cons.prems have "\<exists>d\<in>set dims. \<not> IsLiteral d"
      and "\<forall>d\<in>set dims. if IsLiteral d then literal_value d < 2 ^ 64
                           else Emit d \<noteq> Inl CheckFailure"
      and "Bits_value b < 2 ^ 64"
      by auto
    with Cons.IH d show ?thesis
      by (simp add: ToUint64_def)
  next
    case False
    with Cons.prems have "Emit d \<noteq> Inl CheckFailure"
      by simp
    then obtain s where "Emit d = Inr s"
      by (cases "Emit d") (auto intro: fatal_eq)
    with False show ?thesis
      by simp
  qed
qed

lemma sint_word_of_nat_small:
  assumes "n < 2 ^ 63"
  shows "sint (word_of_nat n :: 64 word) = int n"
proof -
  have "int n < 2 ^ 63"
    using assms by (metis of_nat_less_iff of_nat_numeral of_nat_power)
  then show ?thesis
    by (simp add: signed_of_nat signed_take_bit_int_eq_self)
qed

lemma FlatBitCountAsInt64_literals:
  assumes "\<forall>e\<in>set (DataType_exprs t). IsLiteral e \<and> literal_value e < 2 ^ 64"
  shows "FlatBitCountAsInt64 t = Inr (Inr (word_of_nat (flat_product t)))"
proof -
  from assms have dims: "\<forall>d\<in>set (packed_dims t). IsLiteral d \<and> literal_value d < 2 ^ 64"
    by (simp add: DataType_exprs_def)
  show ?thesis
  proof (cases "width t")
    case None
    then show ?thesis
      using FlatBitCount_dims_literals [OF dims, of 1]
      by (simp add: FlatBitCountAsInt64_def WidthAsInt64_def flat_product_def)
  next
    case (Some w)
    with assms have "IsLiteral w" and fits: "literal_value w < 2 ^ 64"
      by (simp_all add: DataType_exprs_def)
    then obtain b f e where w: "w = Literal b f e"
      by (auto elim: IsLiteral_cases)
    with Some fits show ?thesis
      using FlatBitCount_dims_literals [OF dims, of "word_of_nat (Bits_value b)"]
      by (simp add: FlatBitCountAsInt64_def WidthAsInt64_def ToUint64_def flat_product_def)
  qed
qed

lemma FlatBitCountAsInt64_no_abort:
  assumes "\<forall>e\<in>set (DataType_exprs t). \<not> IsLiteral e \<longrightarrow> Emit e \<noteq> Inl CheckFailure"
  shows "FlatBitCountAsInt64 t \<noteq> Inl CheckFailure"
proof -
  from assms have dims: "\<forall>d\<in>set (packed_dims t). \<not> IsLiteral d \<longrightarrow> Emit d \<noteq> Inl CheckFailure"
    by (simp add: DataType_exprs_def)
  show ?thesis
  proof (cases "width t")
    case None
    then show ?thesis
      using FlatBitCount_dims_no_abort [OF dims, of 1]
      by (simp add: FlatBitCountAsInt64_def WidthAsInt64_def)
  next
    case (Some w)
    show ?thesis
    proof (cases "IsLiteral w")
      case True
      then obtain b f e where "w = Literal b f e"
        by (rule IsLiteral_cases)
      with Some show ?thesis
        using FlatBitCount_dims_no_abort [OF dims]
        by (simp add: FlatBitCountAsInt64_def WidthAsInt64_def ToUint64_def)
    next
      case False
      with Some assms have "Emit w \<noteq> Inl CheckFailure"
        by (simp add: DataType_exprs_def)
      then obtain s where "Emit w = Inr s"
        by (cases "Emit w") (auto intro: fatal_eq)
      with Some False show ?thesis
        by (simp add: FlatBitCountAsInt64_def WidthAsInt64_def)
    qed
  qed
qed

lemma FlatBitCountAsInt64_nonliteral:
  assumes "\<exists>e\<in>set (DataType_exprs t). \<not> IsLiteral e"
    and "\<forall>e\<in>set (DataType_exprs t). if IsLiteral e then literal_value e < 2 ^ 64
                                       else Emit e \<noteq> Inl CheckFailure"
  shows "\<exists>msg. FlatBitCountAsInt64 t = Inr (Inl (FailedPreconditionError msg))"
proof (cases "width t")
  case None
  with assms have "\<exists>d\<in>set (packed_dims t). \<not> IsLiteral d"
    and "\<forall>d\<in>set (packed_dims t). if IsLiteral d then literal_value d < 2 ^ 64
                                    else Emit d \<noteq> Inl CheckFailure"
    by (simp_all add: DataType_exprs_def)
  from FlatBitCount_dims_nonliteral [OF this, of 1] None show ?thesis
    by (simp add: FlatBitCountAsInt64_def WidthAsInt64_def)
next
  case (Some w)
  from Some assms(2) have dims:
    "\<forall>d\<in>set (packed_dims t). if IsLiteral d then literal_value d < 2 ^ 64
                                else Emit d \<noteq> Inl CheckFailure"
    unfolding DataType_exprs_def by auto
  show ?thesis
  proof (cases "IsLiteral w")
    case True
    then obtain b f e where w: "w = Literal b f e"
      by (rule IsLiteral_cases)
    from True Some assms have nonlit: "\<exists>d\<in>set (packed_dims t). \<not> IsLiteral d"
      and "literal_value w < 2 ^ 64"
      by (auto simp: DataType_exprs_def)
    with w have "Bits_value b < 2 ^ 64"
      by simp
    with FlatBitCount_dims_nonliteral [OF nonlit dims, of "word_of_nat (Bits_value b)"] Some w
    show ?thesis
      by (simp add: FlatBitCountAsInt64_def WidthAsInt64_def ToUint64_def)
  next
    case False
    with Some assms(2) have "Emit w \<noteq> Inl CheckFailure"
      by (simp add: DataType_exprs_def)
    then obtain s where "Emit w = Inr s"
      by (cases "Emit w") (auto intro: fatal_eq)
    with Some False show ?thesis
      by (simp add: FlatBitCountAsInt64_def WidthAsInt64_def)
  qed
qed

lemma Port_ToProto_eq:
  "Port_ToProto port =
     (case FlatBitCountAsInt64 (data_type (wire port)) of
        Inl f \<Rightarrow> Inl f
      | Inr (Inl st) \<Rightarrow> Inr (Inl st)
      | Inr (Inr n) \<Rightarrow>
          Inr (Inr \<lparr> proto_direction =
                       (if direction port = kInput then DIRECTION_INPUT else DIRECTION_OUTPUT),
                     proto_name = GetName (wire port), proto_width = n \<rparr>))"
  by (simp add: Port_ToProto_def)

lemma Bits_value_zeros_append:
  "Bits_value (replicate n False @ bs) = 2 ^ n * Bits_value bs"
  by (induction n) simp_all

text \<open>
  C9, as stated, fails: with a non-literal width the call does not always return the
  typed failure.  The message of the failure is built from the text of the width, and
  emitting that text can fail a check: the negation of a 33-bit literal in the default
  format is a non-literal width on which \<^verbatim>\<open>FlatBitCountAsInt64\<close>, and \<^verbatim>\<open>Port::ToProto\<close>
  with it, abort.  Nor is the count of literals always their product: the unsigned
  64-bit value of a literal is returned as a signed one, so the literal width \<open>2^63\<close>
  with no dimensions gives the flat bit count \<open>-2^63\<close>.
\<close>

theorem FlatBitCountAsInt64_aborts_counterexample:
  "\<not> IsLiteral (Unary ''-'' (Literal (replicate 33 False) kDefault False) 12)
   \<and> FlatBitCountAsInt64
       (DataType (Some (Unary ''-'' (Literal (replicate 33 False) kDefault False) 12)) False [])
     = Inl CheckFailure
   \<and> Port_ToProto
       \<lparr> direction = kInput,
         wire = Def ''p'' kWire
           (DataType (Some (Unary ''-'' (Literal (replicate 33 False) kDefault False) 12)) False []) \<rparr>
     = Inl CheckFailure
   \<and> flat_product
       (DataType (Some (Literal (replicate 63 False @ [True]) kHex True)) False []) = 2 ^ 63
   \<and> FlatBitCountAsInt64
       (DataType (Some (Literal (replicate 63 False @ [True]) kHex True)) False [])
     = Inr (Inr (word_of_nat (2 ^ 63)))
   \<and> sint (word_of_nat (2 ^ 63) :: 64 word) = - (2 ^ 63)"
  by (simp add: Port_ToProto_def FlatBitCountAsInt64_def WidthAsInt64_def Literal_Emit_def
      bit_count_def flat_product_def ToUint64_def Bits_value_zeros_append)

text \<open>
  C9, amended.  A data type with no width expression resolves to a width of 1.  When
  every literal width or dimension fits in 64 bits and every non-literal one can be
  emitted, \<^verbatim>\<open>FlatBitCountAsInt64\<close> does not abort; it returns a typed failure exactly
  when the width or some packed dimension is a non-literal expression, and the failure
  is then a failed precondition; with literals only it returns the width multiplied by
  every dimension size as a 64-bit number, which is that product when the product is
  below \<open>2^63\<close>.  \<^verbatim>\<open>Port::ToProto\<close> aborts, fails or returns as \<^verbatim>\<open>FlatBitCountAsInt64\<close>
  does on the type of its wire, the bit count becoming the width of the descriptor.  A
  non-literal width whose emission aborts makes the call abort.
\<close>

theorem FlatBitCountAsInt64_outcomes:
  "(width t = None \<longrightarrow> WidthAsInt64 t = Inr (Inr 1))
   \<and> ((\<forall>e\<in>set (DataType_exprs t).
          if IsLiteral e then literal_value e < 2 ^ 64 else Emit e \<noteq> Inl CheckFailure) \<longrightarrow>
        FlatBitCountAsInt64 t \<noteq> Inl CheckFailure
        \<and> ((\<exists>st. FlatBitCountAsInt64 t = Inr (Inl st)) \<longleftrightarrow>
             (\<exists>e\<in>set (DataType_exprs t). \<not> IsLiteral e))
        \<and> ((\<exists>e\<in>set (DataType_exprs t). \<not> IsLiteral e) \<longrightarrow>
             (\<exists>msg. FlatBitCountAsInt64 t = Inr (Inl (FailedPreconditionError msg))))
        \<and> ((\<forall>e\<in>set (DataType_exprs t). IsLiteral e) \<longrightarrow>
             FlatBitCountAsInt64 t = Inr (Inr (word_of_nat (flat_product t)))
             \<and> (flat_product t < 2 ^ 63 \<longrightarrow>
                  (\<exists>n. FlatBitCountAsInt64 t = Inr (Inr n) \<and> sint n = int (flat_product t)))))
   \<and> Port_ToProto port =
       (case FlatBitCountAsInt64 (data_type (wire port)) of
          Inl f \<Rightarrow> Inl f
        | Inr (Inl st) \<Rightarrow> Inr (Inl st)
        | Inr (Inr n) \<Rightarrow>
            Inr (Inr \<lparr> proto_direction =
                         (if direction port = kInput then DIRECTION_INPUT else DIRECTION_OUTPUT),
                       proto_name = GetName (wire port), proto_width = n \<rparr>))
   \<and> (\<forall>w. width t = Some w \<and> \<not> IsLiteral w \<and> Emit w = Inl CheckFailure \<longrightarrow>
          FlatBitCountAsInt64 t = Inl CheckFailure)"
proof (intro conjI impI allI)
  assume "width t = None"
  then show "WidthAsInt64 t = Inr (Inr 1)"
    by (simp add: WidthAsInt64_def)
next
  fix w assume "width t = Some w \<and> \<not> IsLiteral w \<and> Emit w = Inl CheckFailure"
  then show "FlatBitCountAsInt64 t = Inl CheckFailure"
    by (simp add: FlatBitCountAsInt64_def WidthAsInt64_def)
next
  show "Port_ToProto port =
       (case FlatBitCountAsInt64 (data_type (wire port)) of
          Inl f \<Rightarrow> Inl f
        | Inr (Inl st) \<Rightarrow> Inr (Inl st)
        | Inr (Inr n) \<Rightarrow>
            Inr (Inr \<lparr> proto_direction =
                         (if direction port = kInput then DIRECTION_INPUT else DIRECTION_OUTPUT),
                       proto_name = GetName (wire port), proto_width = n \<rparr>))"
    by (rule Port_ToProto_eq)
next
  assume ok: "\<forall>e\<in>set (DataType_exprs t).
          if IsLiteral e then literal_value e < 2 ^ 64 else Emit e \<noteq> Inl CheckFailure"
  then have emits: "\<forall>e\<in>set (DataType_exprs t). \<not> IsLiteral e \<longrightarrow> Emit e \<noteq> Inl CheckFailure"
    by (auto split: if_splits)
  then show "FlatBitCountAsInt64 t \<noteq> Inl CheckFailure"
    by (rule FlatBitCountAsInt64_no_abort)
  have lits: "FlatBitCountAsInt64 t = Inr (Inr (word_of_nat (flat_product t)))"
    if "\<forall>e\<in>set (DataType_exprs t). IsLiteral e"
  proof -
    from that ok have "\<forall>e\<in>set (DataType_exprs t). IsLiteral e \<and> literal_value e < 2 ^ 64"
      by (auto split: if_splits)
    then show ?thesis
      by (rule FlatBitCountAsInt64_literals)
  qed
  have nonlit: "\<exists>msg. FlatBitCountAsInt64 t = Inr (Inl (FailedPreconditionError msg))"
    if "\<exists>e\<in>set (DataType_exprs t). \<not> IsLiteral e"
    using that ok by (rule FlatBitCountAsInt64_nonliteral)
  show "(\<exists>st. FlatBitCountAsInt64 t = Inr (Inl st)) \<longleftrightarrow>
             (\<exists>e\<in>set (DataType_exprs t). \<not> IsLiteral e)"
  proof
    assume failure: "\<exists>st. FlatBitCountAsInt64 t = Inr (Inl st)"
    show "\<exists>e\<in>set (DataType_exprs t). \<not> IsLiteral e"
    proof (rule ccontr)
      assume "\<not> (\<exists>e\<in>set (DataType_exprs t). \<not> IsLiteral e)"
      then have "\<forall>e\<in>set (DataType_exprs t). IsLiteral e"
        by blast
      then have "FlatBitCountAsInt64 t = Inr (Inr (word_of_nat (flat_product t)))"
        by (rule lits)
      with failure show False
        by simp
    qed
  next
    assume "\<exists>e\<in>set (DataType_exprs t). \<not> IsLiteral e"
    with nonlit show "\<exists>st. FlatBitCountAsInt64 t = Inr (Inl st)"
      by blast
  qed
  {
    assume "\<exists>e\<in>set (DataType_exprs t). \<not> IsLiteral e"
    then show "\<exists>msg. FlatBitCountAsInt64 t = Inr (Inl (FailedPreconditionError msg))"
      by (rule nonlit)
  }
  {
    assume all: "\<forall>e\<in>set (DataType_exprs t). IsLiteral e"
    then show "FlatBitCountAsInt64 t = Inr (Inr (word_of_nat (flat_product t)))"
      by (rule lits)
    assume "flat_product t < 2 ^ 63"
    then have "sint (word_of_nat (flat_product t) :: 64 word) = int (flat_product t)"
      by (rule sint_word_of_nat_small)
    with lits [OF all]
    show "\<exists>n. FlatBitCountAsInt64 t = Inr (Inr n) \<and> sint n = int (flat_product t)"
      by blast
  }
qed

theorem FlatBitCountAsInt64_outcomes_witness:
  "FlatBitCountAsInt64
     (DataType (Some (Literal [False, False, False, True] kDefault False)) False
        [Literal [False, True] kDefault False, Literal [True, True] kDefault False])
     = Inr (Inr 48)
   \<and> FlatBitCountAsInt64 (DataType (Some (MacroRef ''WIDTH'')) False [])
     = Inr (Inl (FailedPreconditionError ''Width is not a literal: `WIDTH''))
   \<and> FlatBitCountAsInt64
       (DataType (Some (Literal [False, False, False, True] kDefault False)) False
          [Literal [False, True] kDefault False, MacroRef ''DEPTH''])
     = Inr (Inl (FailedPreconditionError ''Dimension is not a literal:`DEPTH''))
   \<and> FlatBitCountAsInt64 (DataType None False []) = Inr (Inr 1)
   \<and> Port_ToProto
       \<lparr> direction = kOutput,
         wire = Def ''sum'' kWire
           (DataType (Some (Literal [False, False, False, True] kDefault False)) False
              [Literal [False, True] kDefault False, Literal [True, True] kDefault False]) \<rparr>
     = Inr (Inr \<lparr> proto_direction = DIRECTION_OUTPUT, proto_name = ''sum'', proto_width = 48 \<rparr>)"
  using FlatBitCountAsInt64_outcomes [where t = "DataType (Some (Literal [False, False, False, True] kDefault False)) False
                        [Literal [False, True] kDefault False, Literal [True, True] kDefault False]"
              and port = "\<lparr> direction = kOutput,
                 wire = Def ''sum'' kWire
                   (DataType (Some (Literal [False, False, False, True] kDefault False)) False
                      [Literal [False, True] kDefault False,
                       Literal [True, True] kDefault False]) \<rparr>"]
        FlatBitCountAsInt64_outcomes [where t = "DataType (Some (MacroRef ''WIDTH'')) False []"]
        FlatBitCountAsInt64_outcomes [where t = "DataType (Some (Literal [False, False, False, True] kDefault False)) False
                        [Literal [False, True] kDefault False, MacroRef ''DEPTH'']"]
        FlatBitCountAsInt64_outcomes [where t = "DataType None False []"]
  by (simp add: DataType_exprs_def flat_product_def FlatBitCountAsInt64_def WidthAsInt64_def
      ToUint64_def)

end
